theory Spec2Isabelle
  imports Main "HOL-Library.List_Lexorder" "HOL-Library.Product_Lexorder"
begin

section \<open>Host-language values\<close>

text \<open>
  Every \<open>throw\<close> of the source and every rejected promise is a value of \<open>error\<close>.
\<close>

datatype error =
    RpcFailure
  | IpfsFailure
  | ValidationFailed
  | NoClaims
  | BalanceUnavailable
  | RangeError
  | SyntaxError
  | TypeError
  | MerkleFailure

definition bindE :: "error + 'a \<Rightarrow> ('a \<Rightarrow> error + 'b) \<Rightarrow> error + 'b" where
  "bindE m f = (case m of Inl e \<Rightarrow> Inl e | Inr x \<Rightarrow> f x)"

text \<open>An awaited call of the provider, of a contract or of the IPFS client: \<open>None\<close> is a rejection.\<close>

definition rpc :: "'a option \<Rightarrow> error + 'a" where
  "rpc r = (case r of None \<Rightarrow> Inl RpcFailure | Some x \<Rightarrow> Inr x)"

text \<open>
  \<open>bigint\<close> is an unbounded integer. Its \<open>/\<close> truncates towards zero and throws a
  RangeError on a zero divisor.
\<close>

definition bigint_quot :: "int \<Rightarrow> int \<Rightarrow> int" where
  "bigint_quot a b = sgn a * sgn b * (\<bar>a\<bar> div \<bar>b\<bar>)"

definition bigint_div :: "int \<Rightarrow> int \<Rightarrow> error + int" where
  "bigint_div a b = (if b = 0 then Inl RangeError else Inr (bigint_quot a b))"

text \<open>
  A \<open>number\<close> is an IEEE 754 double: \<open>Finite m e\<close> is the double of value \<open>m * 2^e\<close>
  (53 binary digits in \<open>m\<close>, \<open>e\<close> from -1074 to 971), beside \<open>NaN\<close> and the two
  infinities. An integer \<open>n\<close> is \<open>Finite n 0\<close>.
\<close>

datatype number = Finite int int | NaN | PosInfinity | NegInfinity

text \<open>The number of binary digits of a natural number.\<close>

fun bitLength :: "nat \<Rightarrow> nat" where
  "bitLength n = (if n = 0 then 0 else Suc (bitLength (n div 2)))"

declare bitLength.simps [simp del]

text \<open>\<open>n / 2^k\<close> rounded to the nearest integer, a tie to the even one.\<close>

definition roundHalfEven :: "int \<Rightarrow> nat \<Rightarrow> int" where
  "roundHalfEven n k =
     (let q = n div 2 ^ k; r = n mod 2 ^ k
      in if 2 * r < 2 ^ k then q
         else if 2 * r > 2 ^ k then q + 1
         else if even q then q else q + 1)"

text \<open>
  The double nearest to the real number \<open>m * 2^e\<close>, which is how every arithmetic
  operation on doubles rounds its exact result: \<open>k\<close> binary digits are dropped so that
  53 remain (fewer below \<open>2^-1022\<close>, where the spacing of the doubles stays \<open>2^-1074\<close>); a
  result of \<open>2^1024\<close> or more is an infinity.
\<close>

definition toDouble :: "int \<Rightarrow> int \<Rightarrow> number" where
  "toDouble m e =
     (let k = max (int (bitLength (nat \<bar>m\<bar>)) - 53) (- 1074 - e);
          q = (if k \<le> 0 then \<bar>m\<bar> else roundHalfEven \<bar>m\<bar> (nat k));
          e' = (if k \<le> 0 then e else e + k)
      in if int (bitLength (nat q)) + e' > 1024
         then (if m < 0 then NegInfinity else PosInfinity)
         else Finite (sgn m * q) e')"

text \<open>The operator \<open>*\<close> on numbers.\<close>

fun js_times :: "number \<Rightarrow> number \<Rightarrow> number" where
  "js_times (Finite a e) (Finite b f) = toDouble (a * b) (e + f)"
| "js_times NaN y = NaN"
| "js_times x NaN = NaN"
| "js_times (Finite a e) PosInfinity =
     (if a = 0 then NaN else if 0 < a then PosInfinity else NegInfinity)"
| "js_times (Finite a e) NegInfinity =
     (if a = 0 then NaN else if 0 < a then NegInfinity else PosInfinity)"
| "js_times PosInfinity (Finite b f) =
     (if b = 0 then NaN else if 0 < b then PosInfinity else NegInfinity)"
| "js_times NegInfinity (Finite b f) =
     (if b = 0 then NaN else if 0 < b then NegInfinity else PosInfinity)"
| "js_times PosInfinity PosInfinity = PosInfinity"
| "js_times PosInfinity NegInfinity = NegInfinity"
| "js_times NegInfinity PosInfinity = NegInfinity"
| "js_times NegInfinity NegInfinity = PosInfinity"

fun Math_floor :: "number \<Rightarrow> number" where
  "Math_floor (Finite m e) = (if 0 \<le> e then Finite m e else Finite (m div 2 ^ nat (- e)) 0)"
| "Math_floor NaN = NaN"
| "Math_floor PosInfinity = PosInfinity"
| "Math_floor NegInfinity = NegInfinity"

text \<open>\<open>BigInt(x)\<close> of a number: a RangeError unless \<open>x\<close> is an integer.\<close>

fun BigInt_number :: "number \<Rightarrow> error + int" where
  "BigInt_number (Finite m e) =
     (if 0 \<le> e then Inr (m * 2 ^ nat e)
      else if 2 ^ nat (- e) dvd m then Inr (m div 2 ^ nat (- e))
      else Inl RangeError)"
| "BigInt_number NaN = Inl RangeError"
| "BigInt_number PosInfinity = Inl RangeError"
| "BigInt_number NegInfinity = Inl RangeError"

text \<open>
  The comparisons \<open>x < n\<close> and \<open>x >= n\<close> of a number with an integer (both false for
  \<open>NaN\<close>), and the element of an array that \<open>a[x]\<close> reads: the one at position \<open>x\<close> when
  \<open>x\<close> is a non-negative integer, \<open>undefined\<close> for every other number.
\<close>

fun num_lt :: "number \<Rightarrow> int \<Rightarrow> bool" where
  "num_lt (Finite m e) n = (if 0 \<le> e then m * 2 ^ nat e < n else m < n * 2 ^ nat (- e))"
| "num_lt NaN n = False"
| "num_lt PosInfinity n = False"
| "num_lt NegInfinity n = True"

fun num_ge :: "number \<Rightarrow> int \<Rightarrow> bool" where
  "num_ge (Finite m e) n = (if 0 \<le> e then n \<le> m * 2 ^ nat e else n * 2 ^ nat (- e) \<le> m)"
| "num_ge NaN n = False"
| "num_ge PosInfinity n = True"
| "num_ge NegInfinity n = False"

fun arrayIndex :: "number \<Rightarrow> nat option" where
  "arrayIndex (Finite m e) =
     (if m < 0 then None
      else if 0 \<le> e then Some (nat (m * 2 ^ nat e))
      else if 2 ^ nat (- e) dvd m then Some (nat (m div 2 ^ nat (- e)))
      else None)"
| "arrayIndex NaN = None"
| "arrayIndex PosInfinity = None"
| "arrayIndex NegInfinity = None"

text \<open>
  An amount travels through the blob as a string. \<open>NumStr n\<close> is a string that
  \<open>BigInt\<close> reads as \<open>n\<close> (what \<open>n.toString()\<close> writes); \<open>BadStr\<close> is a non-empty string
  that makes \<open>BigInt\<close> throw.
\<close>

datatype numstr = NumStr int | BadStr

fun BigInt :: "numstr \<Rightarrow> error + int" where
  "BigInt (NumStr n) = Inr n"
| "BigInt BadStr = Inl SyntaxError"

definition toString :: "int \<Rightarrow> numstr" where
  "toString n = NumStr n"

definition ZeroAddress :: string where
  "ZeroAddress = ''0x0000000000000000000000000000000000000000''"

definition ZeroHash :: string where
  "ZeroHash = ''0x0000000000000000000000000000000000000000000000000000000000000000''"

subsection \<open>Strings: lower case and collation\<close>

text \<open>
  \<open>toLowerCase\<close> on the ASCII range, which is where address strings live: the letters
  \<open>A\<close> to \<open>Z\<close> (codes 65 to 90) get bit 5 set, every other character stays.
\<close>

definition isUpper :: "char \<Rightarrow> bool" where
  "isUpper c = (65 \<le> (of_char c :: nat) \<and> (of_char c :: nat) \<le> 90)"

fun setBit5 :: "char \<Rightarrow> char" where
  "setBit5 (Char b0 b1 b2 b3 b4 b5 b6 b7) = Char b0 b1 b2 b3 b4 True b6 b7"

definition lowerChar :: "char \<Rightarrow> char" where
  "lowerChar c = (if isUpper c then setBit5 c else c)"

definition toLowerCase :: "string \<Rightarrow> string" where
  "toLowerCase s = map lowerChar s"

text \<open>
  \<open>String.prototype.localeCompare\<close> without a locale argument compares by the collation
  of the default locale of the process. A collation is given by its sort key, one list
  of weights for each level of comparison (\<open>Intl.Collator\<close> compares as the sort keys of
  its ICU collator do): the keys are compared level by level, each level
  lexicographically. The collation in force is a parameter of the program.
\<close>

type_synonym collation = "string \<Rightarrow> nat list list"

definition localeCompare :: "collation \<Rightarrow> string \<Rightarrow> string \<Rightarrow> int" where
  "localeCompare key a b =
     (if key a < key b then - 1 else if key a = key b then 0 else 1)"

text \<open>
  The root collation (the one of \<open>en-US\<close>) on strings of ASCII digits and letters: the
  strings are compared letter by letter with case ignored (digits before letters,
  letters in alphabetical order); only when that finds no difference does case decide,
  the lower-case letter first at the first position where the two differ.
\<close>

definition rootCollation :: collation where
  "rootCollation s =
     [map (\<lambda>c. of_char (lowerChar c)) s, map (\<lambda>c. if isUpper c then 1 else 0) s]"

text \<open>
  The Danish collation (\<open>da-DK\<close>) on lower-case strings of ASCII digits and letters: as
  the root collation, except that \<open>aa\<close> counts as one letter, the last of the alphabet
  (after \<open>z\<close>, whose weight is 122). It is used below on lower-case recipients only.
\<close>

fun danishLetters :: "string \<Rightarrow> nat list" where
  "danishLetters (c # c' # cs) =
     (if c = CHR ''a'' \<and> c' = CHR ''a'' then 123 # danishLetters cs
      else of_char c # danishLetters (c' # cs))"
| "danishLetters [c] = [of_char c]"
| "danishLetters [] = []"

definition danishCollation :: collation where
  "danishCollation s = [danishLetters s]"

text \<open>
  \<open>Array.prototype.sort\<close> with a comparator is stable; on a consistent comparator every
  stable sort returns the same array, computed here by insertion from the right.
\<close>

fun insertSorted :: "('a \<Rightarrow> 'a \<Rightarrow> int) \<Rightarrow> 'a \<Rightarrow> 'a list \<Rightarrow> 'a list" where
  "insertSorted cmp x [] = [x]"
| "insertSorted cmp x (y # ys) =
     (if cmp x y \<le> 0 then x # y # ys else y # insertSorted cmp x ys)"

definition array_sort :: "('a \<Rightarrow> 'a \<Rightarrow> int) \<Rightarrow> 'a list \<Rightarrow> 'a list" where
  "array_sort cmp xs = foldr (insertSorted cmp) xs []"

text \<open>A \<open>Set<string>\<close> keeps its members in the order of their first insertion.\<close>

definition set_add :: "string list \<Rightarrow> string \<Rightarrow> string list" where
  "set_add s x = (if x \<in> set s then s else s @ [x])"

text \<open>A plain object (\<open>{ [token: string]: string }\<close>): assignment overwrites in place.\<close>

fun obj_set :: "string \<Rightarrow> 'v \<Rightarrow> (string \<times> 'v) list \<Rightarrow> (string \<times> 'v) list" where
  "obj_set k v [] = [(k, v)]"
| "obj_set k v ((k', v') # kvs) =
     (if k = k' then (k, v) # kvs else (k', v') # obj_set k v kvs)"

section \<open>Data model (src/types/index.ts)\<close>

record Claim =
  recipient :: string
  token :: string
  amount :: int

type_synonym leaf = "string \<times> string \<times> numstr"

record Distribution =
  format :: string
  leafEncoding :: "string list"
  tree :: "string list"
  values_d :: "(int \<times> leaf) list"
  prevTreeCid :: string
  blockNumber :: int
  totalDistributed :: "(string \<times> numstr) list"

section \<open>The collaborators\<close>

subsection \<open>Event logs\<close>

text \<open>
  A log of the chain: a \<open>Claimed(recipient, token, amount)\<close> event, a
  \<open>Deposit(sender, owner, assets, shares)\<close> event, or a log with the given topics whose
  data does not decode.
\<close>

datatype log_body =
    ClaimedLog string string int
  | DepositLog string string int int
  | RawLog "string list"

record log =
  log_block :: int
  log_address :: string
  log_body :: log_body

text \<open>\<open>ethers.id\<close>: the hash of an event signature, kept symbolic.\<close>

definition ethers_id :: "string \<Rightarrow> string" where
  "ethers_id s = ''keccak256:'' @ s"

definition claimedTopic :: string where
  "claimedTopic = ethers_id ''Claimed(address,address,uint256)''"

definition depositTopic :: string where
  "depositTopic = ethers_id ''Deposit(address,address,uint256,uint256)''"

text \<open>An indexed address as a 32-byte topic: \<open>'0x' + 24 zeros + address.slice(2).toLowerCase()\<close>.\<close>

definition addressTopic :: "string \<Rightarrow> string" where
  "addressTopic a = ''0x000000000000000000000000'' @ toLowerCase (drop 2 a)"

fun log_topics :: "log_body \<Rightarrow> string list" where
  "log_topics (ClaimedLog r t a) = [claimedTopic, addressTopic r, addressTopic t]"
| "log_topics (DepositLog s ow a sh) = [depositTopic, addressTopic s, addressTopic ow]"
| "log_topics (RawLog ts) = ts"

datatype blockTag = Latest | BlockNum int

record log_filter =
  fromBlock :: int
  toBlock :: blockTag
  address_f :: string
  topics_f :: "string option list"

text \<open>A filter topic \<open>null\<close> (\<open>None\<close>) accepts any topic at its position.\<close>

fun matchTopics :: "string option list \<Rightarrow> string list \<Rightarrow> bool" where
  "matchTopics [] ts = True"
| "matchTopics (f # fs) [] = False"
| "matchTopics (None # fs) (t # ts) = matchTopics fs ts"
| "matchTopics (Some f # fs) (t # ts) = (f = t \<and> matchTopics fs ts)"

definition matchLog :: "log_filter \<Rightarrow> log \<Rightarrow> bool" where
  "matchLog f l =
     (fromBlock f \<le> log_block l
      \<and> (case toBlock f of Latest \<Rightarrow> True | BlockNum n \<Rightarrow> log_block l \<le> n)
      \<and> toLowerCase (log_address l) = toLowerCase (address_f f)
      \<and> matchTopics (topics_f f) (log_topics (log_body l)))"

text \<open>
  \<open>Interface.parseLog\<close>: \<open>null\<close> for a log whose first topic is not the interface's event,
  an exception for one whose data does not decode, the arguments otherwise.
\<close>

datatype 'a parse_result = ParseNull | ParseThrows | Parsed 'a

fun parseClaimed :: "log_body \<Rightarrow> (string \<times> string \<times> int) parse_result" where
  "parseClaimed (ClaimedLog r t a) = Parsed (r, t, a)"
| "parseClaimed (DepositLog s ow a sh) = ParseNull"
| "parseClaimed (RawLog ts) =
     (case ts of [] \<Rightarrow> ParseNull
      | t0 # _ \<Rightarrow> if t0 = claimedTopic then ParseThrows else ParseNull)"

fun parseDeposit :: "log_body \<Rightarrow> (string \<times> string \<times> int \<times> int) parse_result" where
  "parseDeposit (DepositLog s ow a sh) = Parsed (s, ow, a, sh)"
| "parseDeposit (ClaimedLog r t a) = ParseNull"
| "parseDeposit (RawLog ts) =
     (case ts of [] \<Rightarrow> ParseNull
      | t0 # _ \<Rightarrow> if t0 = depositTopic then ParseThrows else ParseNull)"

subsection \<open>The Merkle library\<close>

text \<open>
  \<open>@openzeppelin/merkle-tree\<close> is a dependency; its hashing is a parameter of the model.
  \<open>hashOk\<close> says whether a leaf can be ABI-encoded as \<open>[address, address, uint256]\<close>;
  \<open>rootOf\<close>, \<open>nodesOf\<close> and \<open>treeIndexOf\<close> give the root, the node array and the tree
  position of the i-th value of \<open>StandardMerkleTree.of\<close>; \<open>loadOk\<close> says whether
  \<open>StandardMerkleTree.load\<close> accepts a dumped tree; \<open>proofAt\<close> is \<open>getProof\<close> on the
  loaded tree (\<open>None\<close> when it throws); \<open>verifyLeaf root leaf proof\<close> is \<open>verify\<close>.
\<close>

record merkle_lib =
  hashOk :: "leaf \<Rightarrow> bool"
  rootOf :: "leaf list \<Rightarrow> string"
  nodesOf :: "leaf list \<Rightarrow> string list"
  treeIndexOf :: "leaf list \<Rightarrow> nat \<Rightarrow> int"
  loadOk :: "Distribution \<Rightarrow> bool"
  proofAt :: "Distribution \<Rightarrow> nat \<Rightarrow> string list option"
  verifyLeaf :: "string \<Rightarrow> leaf \<Rightarrow> string list \<Rightarrow> bool"

record merkle_tree =
  mt_root :: string
  mt_tree :: "string list"
  mt_values :: "(int \<times> leaf) list"

text \<open>
  \<open>StandardMerkleTree.of(values, ['address', 'address', 'uint256'])\<close>: throws on an empty
  list and on a leaf it cannot encode; the tree's \<open>values\<close>, which \<open>dump\<close> writes into the
  blob, are the given values in the given order, each with its position in the node
  array (the \<open>treeIndex\<close> of the README's sample blob).
\<close>

definition StandardMerkleTree_of :: "merkle_lib \<Rightarrow> leaf list \<Rightarrow> error + merkle_tree" where
  "StandardMerkleTree_of lib vs =
     (if vs \<noteq> [] \<and> list_all (hashOk lib) vs
      then Inr \<lparr>mt_root = rootOf lib vs, mt_tree = nodesOf lib vs,
                mt_values = zip (map (treeIndexOf lib vs) [0..<length vs]) vs\<rparr>
      else Inl MerkleFailure)"

subsection \<open>The Distributor object\<close>

text \<open>
  The options of the instance (\<open>operatorFee\<close> is a number, the fee in percent), the
  collation of the process's default locale, and what the provider, the contracts and
  the IPFS client answer. A balance read answers \<open>Some None\<close> for \<open>null\<close>.
\<close>

record Distributor =
  wrapperAddr :: string
  distributorAddr :: string
  operatorFee :: number
  collator :: collation
  merkle :: merkle_lib
  cid_call :: "string option"
  root_call :: "string option"
  lastProcessedBlock_call :: "int option"
  getBlockNumber :: "int option"
  getBlock :: "int \<Rightarrow> unit option"
  getTokens :: "string list option"
  totalSupply :: "int option"
  wrapper_balanceOf :: "string \<Rightarrow> int option"
  erc20_balanceOf :: "string \<Rightarrow> int option option"
  erc20_balanceOfAt :: "string \<Rightarrow> int \<Rightarrow> int option option"
  chainLogs :: "log list option"
  ipfs_cat :: "string \<Rightarrow> Distribution option"
  ipfs_add :: "Distribution \<Rightarrow> string option"

definition getLogs :: "Distributor \<Rightarrow> log_filter \<Rightarrow> error + log list" where
  "getLogs d f = bindE (rpc (chainLogs d)) (\<lambda>ls. Inr (filter (matchLog f) ls))"

section \<open>Distributor (src/distributor/index.ts)\<close>

text \<open>
  \<open>getPreviousDistributionInfo\<close>: the \<open>catch\<close> turns a failed read of \<open>cid\<close> or \<open>root\<close>
  into \<open>null\<close>, the answer of a genesis round.
\<close>

definition getPreviousDistributionInfo :: "Distributor \<Rightarrow> (string \<times> string) option" where
  "getPreviousDistributionInfo d =
     (case cid_call d of
        None \<Rightarrow> None
      | Some cid \<Rightarrow>
          (case root_call d of
             None \<Rightarrow> None
           | Some merkleRoot \<Rightarrow>
               if cid = [] \<or> merkleRoot = ZeroHash then None else Some (cid, merkleRoot)))"

text \<open>The \<open>values.map\<close> of \<open>validatePreviousDistribution\<close>; \<open>BigInt\<close> may throw.\<close>

fun valuesToClaims :: "(int \<times> leaf) list \<Rightarrow> error + Claim list" where
  "valuesToClaims [] = Inr []"
| "valuesToClaims ((i, (r, t, a)) # vs) =
     bindE (BigInt a) (\<lambda>n.
     bindE (valuesToClaims vs) (\<lambda>cs.
     Inr (\<lparr>recipient = r, token = t, amount = n\<rparr> # cs)))"

definition generateMerkleTree :: "merkle_lib \<Rightarrow> Claim list \<Rightarrow> error + merkle_tree" where
  "generateMerkleTree lib claims =
     (if claims = [] then Inl NoClaims
      else StandardMerkleTree_of lib
             (map (\<lambda>c. (recipient c, token c, toString (amount c))) claims))"

text \<open>\<open>validatePreviousDistribution\<close>: any exception of the rebuild is caught and answers \<open>false\<close>.\<close>

definition validatePreviousDistribution :: "Distributor \<Rightarrow> Distribution \<Rightarrow> string \<Rightarrow> bool" where
  "validatePreviousDistribution d previousDistribution expectedMerkleRoot =
     (case bindE (valuesToClaims (values_d previousDistribution)) (generateMerkleTree (merkle d)) of
        Inl e \<Rightarrow> False
      | Inr merkleTree \<Rightarrow> mt_root merkleTree = expectedMerkleRoot)"

definition getDistributorTokenBalance :: "Distributor \<Rightarrow> string \<Rightarrow> error + int" where
  "getDistributorTokenBalance d tokenAddr =
     bindE (rpc (erc20_balanceOf d tokenAddr)) (\<lambda>balance.
     case balance of None \<Rightarrow> Inl BalanceUnavailable | Some b \<Rightarrow> Inr b)"

definition getDistributorBalanceAtBlock :: "Distributor \<Rightarrow> string \<Rightarrow> int \<Rightarrow> error + int" where
  "getDistributorBalanceAtBlock d tokenAddr blockNo =
     bindE (rpc (erc20_balanceOfAt d tokenAddr blockNo)) (\<lambda>balance.
     case balance of None \<Rightarrow> Inr 0 | Some b \<Rightarrow> Inr b)"

text \<open>
  The loop of \<open>getClaimedAmountSinceLastReport\<close>: a log that \<open>parseLog\<close> rejects or
  answers \<open>null\<close> for adds nothing (the \<open>catch\<close> only warns).
\<close>

fun sumClaimed :: "log list \<Rightarrow> int \<Rightarrow> int" where
  "sumClaimed [] totalClaimed = totalClaimed"
| "sumClaimed (l # ls) totalClaimed =
     (case parseClaimed (log_body l) of
        Parsed (r, t, a) \<Rightarrow> sumClaimed ls (totalClaimed + a)
      | ParseNull \<Rightarrow> sumClaimed ls totalClaimed
      | ParseThrows \<Rightarrow> sumClaimed ls totalClaimed)"

definition getClaimedAmountSinceLastReport ::
    "Distributor \<Rightarrow> string \<Rightarrow> int \<Rightarrow> blockTag \<Rightarrow> error + int" where
  "getClaimedAmountSinceLastReport d tokenAddr fromB toB =
     bindE (getLogs d \<lparr>fromBlock = fromB, toBlock = toB, address_f = distributorAddr d,
                        topics_f = [Some claimedTopic, None, Some (addressTopic tokenAddr)]\<rparr>)
       (\<lambda>logs. Inr (sumClaimed logs 0))"

definition calculateDistributableAmount ::
    "Distributor \<Rightarrow> string \<Rightarrow> Distribution option \<Rightarrow> error + int" where
  "calculateDistributableAmount d tokenAddr previousDistribution =
     bindE (getDistributorTokenBalance d tokenAddr) (\<lambda>currentBalance.
     case previousDistribution of
       None \<Rightarrow> Inr currentBalance
     | Some prev \<Rightarrow>
         bindE (getClaimedAmountSinceLastReport d tokenAddr (blockNumber prev + 1) Latest)
           (\<lambda>claimedAmount.
         bindE (getDistributorBalanceAtBlock d tokenAddr (blockNumber prev)) (\<lambda>previousBalance.
         let newDistributableAmount = currentBalance - (previousBalance - claimedAmount)
         in Inr (if newDistributableAmount > 0 then newDistributableAmount else 0))))"

text \<open>The loop of \<open>getWrapperUsers\<close> over the Deposit logs, collecting \<open>args[1]\<close>, the owner.\<close>

fun depositOwners :: "log list \<Rightarrow> string list \<Rightarrow> string list" where
  "depositOwners [] addresses = addresses"
| "depositOwners (l # ls) addresses =
     (case parseDeposit (log_body l) of
        Parsed (s, ow, a, sh) \<Rightarrow> depositOwners ls (set_add addresses ow)
      | ParseNull \<Rightarrow> depositOwners ls addresses
      | ParseThrows \<Rightarrow> depositOwners ls addresses)"

definition getWrapperUsers :: "Distributor \<Rightarrow> int \<Rightarrow> int \<Rightarrow> error + string list" where
  "getWrapperUsers d fromB toB =
     bindE (getLogs d \<lparr>fromBlock = fromB, toBlock = BlockNum toB, address_f = wrapperAddr d,
                        topics_f = [Some depositTopic]\<rparr>)
       (\<lambda>logs. Inr (filter (\<lambda>addr. addr \<noteq> ZeroAddress) (depositOwners logs [])))"

subsection \<open>generateDistribution, in the order of its steps\<close>

text \<open>Lines 49 to 66: download and validate the previous blob when the chain names one.\<close>

definition loadPrevious ::
    "Distributor \<Rightarrow> (string \<times> string) option \<Rightarrow> error + Distribution option" where
  "loadPrevious d previousInfo =
     (case previousInfo of
        None \<Rightarrow> Inr None
      | Some (cid, merkleRoot) \<Rightarrow>
          (case ipfs_cat d cid of
             None \<Rightarrow> Inl IpfsFailure
           | Some previousDistribution \<Rightarrow>
               if validatePreviousDistribution d previousDistribution merkleRoot
               then Inr (Some previousDistribution)
               else Inl ValidationFailed))"

text \<open>Lines 81 to 95: \<open>allUsersSet\<close>, then \<open>Array.from\<close>.\<close>

definition collectUsers :: "Distribution option \<Rightarrow> string list \<Rightarrow> string list" where
  "collectUsers previousDistribution newUsers =
     foldl set_add
       (case previousDistribution of
          None \<Rightarrow> []
        | Some prev \<Rightarrow> foldl set_add [] (map (\<lambda>v. fst (snd v)) (values_d prev)))
       newUsers"

text \<open>Lines 103 to 115: \<open>previousClaims\<close>, a map from recipient to a map from token to amount.\<close>

type_synonym claims_map = "string \<Rightarrow> (string \<Rightarrow> int option) option"

fun buildPreviousClaims :: "(int \<times> leaf) list \<Rightarrow> claims_map \<Rightarrow> error + claims_map" where
  "buildPreviousClaims [] m = Inr m"
| "buildPreviousClaims ((i, (r, t, a)) # vs) m =
     bindE (BigInt a) (\<lambda>n.
     buildPreviousClaims vs
       (m(r \<mapsto> (case m r of None \<Rightarrow> Map.empty(t \<mapsto> n) | Some inner \<Rightarrow> inner(t \<mapsto> n)))))"

definition previousAmount :: "claims_map \<Rightarrow> string \<Rightarrow> string \<Rightarrow> int" where
  "previousAmount previousClaims user tokenAddr =
     (case previousClaims user of
        None \<Rightarrow> 0
      | Some userPreviousClaims \<Rightarrow>
          (case userPreviousClaims tokenAddr of None \<Rightarrow> 0 | Some a \<Rightarrow> a))"

definition precision :: int where
  "precision = 1000000000000000000"

text \<open>Lines 151 to 175: the loop over the users for one token.\<close>

fun processUsers ::
    "Distributor \<Rightarrow> claims_map \<Rightarrow> string \<Rightarrow> int \<Rightarrow> int \<Rightarrow> string list
       \<Rightarrow> Claim list \<times> int \<Rightarrow> error + (Claim list \<times> int)" where
  "processUsers d previousClaims tokenAddr actualDistributableAmount supply [] acc = Inr acc"
| "processUsers d previousClaims tokenAddr actualDistributableAmount supply (user # users)
       (allClaims, tokenTotalAmount) =
     bindE (rpc (wrapper_balanceOf d user)) (\<lambda>effectiveBalance.
     if effectiveBalance \<le> 0
     then processUsers d previousClaims tokenAddr actualDistributableAmount supply users
            (allClaims, tokenTotalAmount)
     else
       bindE (bigint_div (effectiveBalance * precision) supply) (\<lambda>userShare.
       let tokenAmount = bigint_quot (actualDistributableAmount * userShare) precision in
       if tokenAmount > 0
       then processUsers d previousClaims tokenAddr actualDistributableAmount supply users
              (allClaims @ [\<lparr>recipient = user, token = tokenAddr,
                              amount = previousAmount previousClaims user tokenAddr + tokenAmount\<rparr>],
               tokenTotalAmount + tokenAmount)
       else processUsers d previousClaims tokenAddr actualDistributableAmount supply users
              (allClaims, tokenTotalAmount)))"

text \<open>
  Line 141: \<open>BigInt(Math.floor(this.options.operatorFee * 100))\<close>, the fee in hundredths
  of a percent. The product is a product of doubles.
\<close>

definition feeBasisPoints :: "number \<Rightarrow> error + int" where
  "feeBasisPoints fee = BigInt_number (Math_floor (js_times fee (Finite 100 0)))"

text \<open>Lines 125 to 178: the body of the loop over the tokens.\<close>

definition previousTotal :: "Distribution option \<Rightarrow> string \<Rightarrow> error + int" where
  "previousTotal previousDistribution tokenAddr =
     (case previousDistribution of
        None \<Rightarrow> Inr 0
      | Some prev \<Rightarrow>
          (case map_of (totalDistributed prev) tokenAddr of
             None \<Rightarrow> Inr 0
           | Some s \<Rightarrow> BigInt s))"

definition processToken ::
    "Distributor \<Rightarrow> Distribution option \<Rightarrow> claims_map \<Rightarrow> string list \<Rightarrow> int \<Rightarrow> string
       \<Rightarrow> Claim list \<times> (string \<times> numstr) list
       \<Rightarrow> error + (Claim list \<times> (string \<times> numstr) list)" where
  "processToken d previousDistribution previousClaims users supply tokenAddr acc =
     (case acc of (allClaims, totals) \<Rightarrow>
     bindE (previousTotal previousDistribution tokenAddr) (\<lambda>tokenTotalAmount.
     bindE (calculateDistributableAmount d tokenAddr previousDistribution) (\<lambda>distributableAmount.
     if distributableAmount \<le> 0
     then Inr (allClaims, obj_set tokenAddr (toString tokenTotalAmount) totals)
     else
       bindE (feeBasisPoints (operatorFee d)) (\<lambda>basisPoints.
       let operatorFeeAmount = bigint_quot (distributableAmount * basisPoints) 10000;
           actualDistributableAmount = distributableAmount - operatorFeeAmount
       in bindE (processUsers d previousClaims tokenAddr actualDistributableAmount supply users
                   (allClaims, tokenTotalAmount))
            (\<lambda>(allClaims', tokenTotalAmount').
               Inr (allClaims', obj_set tokenAddr (toString tokenTotalAmount') totals))))))"

fun processTokens ::
    "Distributor \<Rightarrow> Distribution option \<Rightarrow> claims_map \<Rightarrow> string list \<Rightarrow> int \<Rightarrow> string list
       \<Rightarrow> Claim list \<times> (string \<times> numstr) list
       \<Rightarrow> error + (Claim list \<times> (string \<times> numstr) list)" where
  "processTokens d previousDistribution previousClaims users supply [] acc = Inr acc"
| "processTokens d previousDistribution previousClaims users supply (tokenAddr # tokens) acc =
     bindE (processToken d previousDistribution previousClaims users supply tokenAddr acc)
       (processTokens d previousDistribution previousClaims users supply tokens)"

text \<open>Lines 181 to 185: the comparator of the final sort.\<close>

definition compareClaims :: "collation \<Rightarrow> Claim \<Rightarrow> Claim \<Rightarrow> int" where
  "compareClaims key a b =
     (let addrCompare = localeCompare key (recipient a) (recipient b)
      in if addrCompare \<noteq> 0 then addrCompare else localeCompare key (token a) (token b))"

text \<open>
  Lines 98 to 195: from the candidate list \<open>users\<close> to the new blob and its root.
\<close>

definition distributeAmong ::
    "Distributor \<Rightarrow> (string \<times> string) option \<Rightarrow> Distribution option \<Rightarrow> int \<Rightarrow> string list
       \<Rightarrow> error + (Distribution \<times> string)" where
  "distributeAmong d previousInfo previousDistribution currentBlock users =
     bindE (rpc (totalSupply d)) (\<lambda>supply.
     bindE (buildPreviousClaims
              (case previousDistribution of None \<Rightarrow> [] | Some prev \<Rightarrow> values_d prev)
              Map.empty) (\<lambda>previousClaims.
     bindE (rpc (getTokens d)) (\<lambda>tokens.
     bindE (processTokens d previousDistribution previousClaims users supply tokens ([], []))
       (\<lambda>(allClaims, totals).
     bindE (generateMerkleTree (merkle d) (array_sort (compareClaims (collator d)) allClaims))
       (\<lambda>merkleTree.
     Inr (\<lparr>format = ''standard-v1'',
            leafEncoding = [''address'', ''address'', ''uint256''],
            tree = mt_tree merkleTree,
            values_d = mt_values merkleTree,
            prevTreeCid = (case previousInfo of None \<Rightarrow> [] | Some (cid, r) \<Rightarrow> cid),
            blockNumber = currentBlock,
            totalDistributed = totals\<rparr>,
          mt_root merkleTree))))))"

text \<open>
  Lines 68 to 96: the last processed block, the current block, the owners of the
  deposits between the two, and the candidate list; then the rest of the round.
\<close>

definition roundFrom ::
    "Distributor \<Rightarrow> (string \<times> string) option \<Rightarrow> Distribution option
       \<Rightarrow> error + (Distribution \<times> string)" where
  "roundFrom d previousInfo previousDistribution =
     bindE (rpc (lastProcessedBlock_call d)) (\<lambda>lastProcessedBlock.
     bindE (rpc (getBlockNumber d)) (\<lambda>currentBlock.
     bindE (rpc (getBlock d currentBlock)) (\<lambda>currentBlockData.
     bindE (getWrapperUsers d lastProcessedBlock currentBlock) (\<lambda>newUsers.
     let users = collectUsers previousDistribution newUsers in
     distributeAmong d previousInfo previousDistribution currentBlock users))))"

record generated =
  distribution :: Distribution
  merkleRoot :: string
  cid :: string

text \<open>
  \<open>generateDistribution\<close>, with lines 197 to 201 as \<open>uploadRound\<close>. The second component
  lists the blobs handed to the IPFS client: the upload is the last step, so a round that
  throws earlier hands over none.
\<close>

definition uploadRound ::
    "Distributor \<Rightarrow> error + (Distribution \<times> string) \<Rightarrow> (error + generated) \<times> Distribution list" where
  "uploadRound d r =
     (case r of
        Inl e \<Rightarrow> (Inl e, [])
      | Inr (dist, root) \<Rightarrow>
          (case ipfs_add d dist of
             None \<Rightarrow> (Inl IpfsFailure, [dist])
           | Some c \<Rightarrow> (Inr \<lparr>distribution = dist, merkleRoot = root, cid = c\<rparr>, [dist])))"

definition generateDistribution :: "Distributor \<Rightarrow> (error + generated) \<times> Distribution list" where
  "generateDistribution d =
     (let previousInfo = getPreviousDistributionInfo d
      in uploadRound d (bindE (loadPrevious d previousInfo) (roundFrom d previousInfo)))"

section \<open>ProofGenerator (src/proof-generator/index.ts)\<close>

record proof_result =
  pr_proof :: "string list"
  pr_value :: leaf
  pr_treeIndex :: int

text \<open>\<open>Array.prototype.findIndex\<close>: the first index whose element satisfies the test.\<close>

fun findIndex :: "('a \<Rightarrow> bool) \<Rightarrow> 'a list \<Rightarrow> nat option" where
  "findIndex P [] = None"
| "findIndex P (x # xs) =
     (if P x then Some 0 else map_option Suc (findIndex P xs))"

definition StandardMerkleTree_load :: "merkle_lib \<Rightarrow> Distribution \<Rightarrow> error + Distribution" where
  "StandardMerkleTree_load lib dist = (if loadOk lib dist then Inr dist else Inl MerkleFailure)"

definition getProof :: "merkle_lib \<Rightarrow> Distribution \<Rightarrow> nat \<Rightarrow> error + string list" where
  "getProof lib loaded i =
     (case proofAt lib loaded i of None \<Rightarrow> Inl MerkleFailure | Some p \<Rightarrow> Inr p)"

definition generateProofForRecipient ::
    "merkle_lib \<Rightarrow> Distribution \<Rightarrow> string \<Rightarrow> error + proof_result option" where
  "generateProofForRecipient lib dist rcpt =
     bindE (StandardMerkleTree_load lib dist) (\<lambda>merkleTree.
     case findIndex (\<lambda>v. toLowerCase (fst (snd v)) = toLowerCase rcpt) (values_d dist) of
       None \<Rightarrow> Inr None
     | Some recipientIndex \<Rightarrow>
         bindE (getProof lib merkleTree recipientIndex) (\<lambda>proof.
         Inr (Some \<lparr>pr_proof = proof,
                     pr_value = snd (values_d dist ! recipientIndex),
                     pr_treeIndex = int recipientIndex\<rparr>)))"

text \<open>
  \<open>generateProofByIndex\<close>: the index is a number (the command line passes the result of
  \<open>parseInt\<close>). Past the range test, \<open>getProof\<close> reads \<open>values[index]\<close> and throws a
  TypeError when that is \<open>undefined\<close>.
\<close>

definition generateProofByIndex ::
    "merkle_lib \<Rightarrow> Distribution \<Rightarrow> number \<Rightarrow> error + proof_result option" where
  "generateProofByIndex lib dist index =
     (if num_lt index 0 \<or> num_ge index (int (length (values_d dist))) then Inr None
      else
        bindE (StandardMerkleTree_load lib dist) (\<lambda>merkleTree.
        case arrayIndex index of
          None \<Rightarrow> Inl TypeError
        | Some i \<Rightarrow>
            bindE (getProof lib merkleTree i) (\<lambda>proof.
            Inr (Some \<lparr>pr_proof = proof,
                        pr_value = snd (values_d dist ! i),
                        pr_treeIndex = fst (values_d dist ! i)\<rparr>))))"

text \<open>\<open>verifyProof\<close>: the tree is built from the one value; \<open>root\<close> is not read.\<close>

definition verifyProof :: "merkle_lib \<Rightarrow> leaf \<Rightarrow> string list \<Rightarrow> string \<Rightarrow> error + bool" where
  "verifyProof lib v proof root =
     bindE (StandardMerkleTree_of lib [v]) (\<lambda>t. Inr (verifyLeaf lib (mt_root t) v proof))"

section \<open>Notions used in the statements\<close>

text \<open>
  What one log contributes to the sum of the \<open>Claimed\<close> amounts of a token since a block:
  its amount when it is a \<open>Claimed\<close> event of the distributor for that token at or after
  the block, nothing otherwise.
\<close>

definition claimedFor :: "Distributor \<Rightarrow> string \<Rightarrow> int \<Rightarrow> log \<Rightarrow> int" where
  "claimedFor d tokenAddr fromB l =
     (case log_body l of
        ClaimedLog r t a \<Rightarrow>
          if fromB \<le> log_block l
             \<and> toLowerCase (log_address l) = toLowerCase (distributorAddr d)
             \<and> toLowerCase (drop 2 t) = toLowerCase (drop 2 tokenAddr)
          then a else 0
      | DepositLog s ow a sh \<Rightarrow> 0
      | RawLog ts \<Rightarrow> 0)"

definition claimedSince :: "Distributor \<Rightarrow> string \<Rightarrow> int \<Rightarrow> log list \<Rightarrow> int" where
  "claimedSince d tokenAddr fromB ls = sum_list (map (claimedFor d tokenAddr fromB) ls)"

definition claimedAmount :: "log \<Rightarrow> int" where
  "claimedAmount l =
     (case log_body l of ClaimedLog r t a \<Rightarrow> a | DepositLog s ow a sh \<Rightarrow> 0 | RawLog ts \<Rightarrow> 0)"

text \<open>
  The hundredfold of a number's value rounded down in exact arithmetic, and a double that
  is nearest to the fraction \<open>n / q\<close>: it has 53 binary digits and lies within half the
  spacing of the doubles around it.
\<close>

fun exactBasisPoints :: "number \<Rightarrow> int option" where
  "exactBasisPoints (Finite m e) =
     Some (if 0 \<le> e then m * 100 * 2 ^ nat e else (m * 100) div 2 ^ nat (- e))"
| "exactBasisPoints NaN = None"
| "exactBasisPoints PosInfinity = None"
| "exactBasisPoints NegInfinity = None"

fun nearestTo :: "number \<Rightarrow> int \<Rightarrow> int \<Rightarrow> bool" where
  "nearestTo (Finite m e) n q =
     (2 ^ 52 \<le> \<bar>m\<bar> \<and> \<bar>m\<bar> < 2 ^ 53 \<and> - 1074 \<le> e \<and> e < 0 \<and> 0 < q
      \<and> 2 * \<bar>m * q - n * 2 ^ nat (- e)\<bar> \<le> q)"
| "nearestTo NaN n q = False"
| "nearestTo PosInfinity n q = False"
| "nearestTo NegInfinity n q = False"

text \<open>The fee skim and the share of one holder, in truncating integer arithmetic.\<close>

definition afterFee :: "int \<Rightarrow> int \<Rightarrow> int" where
  "afterFee D bps = D - bigint_quot (D * bps) 10000"

definition allocation :: "int \<Rightarrow> int \<Rightarrow> int \<Rightarrow> int" where
  "allocation actual supply b =
     bigint_quot (actual * bigint_quot (b * 1000000000000000000) supply) 1000000000000000000"

definition emitted :: "int \<Rightarrow> int \<Rightarrow> (string \<Rightarrow> int) \<Rightarrow> string list \<Rightarrow> string list" where
  "emitted actual supply b users =
     filter (\<lambda>u. 0 < b u \<and> 0 < allocation actual supply (b u)) users"

text \<open>The order of \<open>values\<close>: by collation key, and by lower-case text.\<close>

definition claimKey :: "collation \<Rightarrow> Claim \<Rightarrow> nat list list \<times> nat list list" where
  "claimKey key c = (key (recipient c), key (token c))"

definition addressKey :: "string \<Rightarrow> nat list" where
  "addressKey a = map of_char (toLowerCase a)"

definition lowerPair :: "int \<times> leaf \<Rightarrow> nat list \<times> nat list" where
  "lowerPair v = (addressKey (fst (snd v)), addressKey (fst (snd (snd v))))"

definition compareRows :: "collation \<Rightarrow> int \<times> leaf \<Rightarrow> int \<times> leaf \<Rightarrow> int" where
  "compareRows key v w =
     (if localeCompare key (fst (snd v)) (fst (snd w)) \<noteq> 0
      then localeCompare key (fst (snd v)) (fst (snd w))
      else localeCompare key (fst (snd (snd v))) (fst (snd (snd w))))"

text \<open>
  A collation orders the address strings of some rows as their lower-case text does: of
  two of these strings, the one that collates first (or equal) is first (or equal) in
  lower case.
\<close>

definition rowStrings :: "(int \<times> leaf) list \<Rightarrow> string list" where
  "rowStrings vs = map (\<lambda>v. fst (snd v)) vs @ map (\<lambda>v. fst (snd (snd v))) vs"

definition collatesAsLowerCase :: "collation \<Rightarrow> (int \<times> leaf) list \<Rightarrow> bool" where
  "collatesAsLowerCase key vs =
     list_all (\<lambda>a. list_all (\<lambda>b. key a \<le> key b \<longrightarrow> addressKey a \<le> addressKey b)
                           (rowStrings vs)) (rowStrings vs)"

definition caseConsistent :: "(int \<times> leaf) list \<Rightarrow> bool" where
  "caseConsistent vs =
     list_all (\<lambda>v. list_all (\<lambda>w. toLowerCase (fst (snd v)) \<noteq> toLowerCase (fst (snd w))
                                  \<or> fst (snd v) = fst (snd w)) vs) vs"

definition addressOrdered :: "string list \<Rightarrow> bool" where
  "addressOrdered xs = sorted (map addressKey xs)"

text \<open>The members of a list in the order of their first occurrence.\<close>

definition firstOccurrences :: "'a list \<Rightarrow> 'a list" where
  "firstOccurrences xs = rev (remdups (rev xs))"

definition previousRecipients :: "Distribution option \<Rightarrow> string list" where
  "previousRecipients p =
     (case p of None \<Rightarrow> [] | Some prev \<Rightarrow> map (\<lambda>v. fst (snd v)) (values_d prev))"

text \<open>The owners of the \<open>Deposit\<close> events of the wrapper in a block range, in log order.\<close>

fun depositOwnerOf :: "Distributor \<Rightarrow> int \<Rightarrow> int \<Rightarrow> log \<Rightarrow> string list" where
  "depositOwnerOf d fromB toB l =
     (case log_body l of
        DepositLog s ow a sh \<Rightarrow>
          if fromB \<le> log_block l \<and> log_block l \<le> toB
             \<and> toLowerCase (log_address l) = toLowerCase (wrapperAddr d)
          then [ow] else []
      | ClaimedLog r t a \<Rightarrow> []
      | RawLog ts \<Rightarrow> [])"

definition depositOwnersIn :: "Distributor \<Rightarrow> int \<Rightarrow> int \<Rightarrow> log list \<Rightarrow> string list" where
  "depositOwnersIn d fromB toB ls = concat (map (depositOwnerOf d fromB toB) ls)"

text \<open>
  The previous recipients, then the owners of the deposits of a block range other than
  the zero address, each at its first occurrence.
\<close>

definition candidateList ::
    "Distributor \<Rightarrow> Distribution option \<Rightarrow> int \<Rightarrow> int \<Rightarrow> log list \<Rightarrow> string list" where
  "candidateList d p fromB toB ls =
     firstOccurrences
       (previousRecipients p
        @ filter (\<lambda>a. a \<noteq> ZeroAddress) (firstOccurrences (depositOwnersIn d fromB toB ls)))"

text \<open>The root rebuilt from a blob's values, when the rebuild succeeds.\<close>

definition rebuiltRoot :: "Distributor \<Rightarrow> Distribution \<Rightarrow> string option" where
  "rebuiltRoot d blob =
     (case bindE (valuesToClaims (values_d blob)) (generateMerkleTree (merkle d)) of
        Inl e \<Rightarrow> None
      | Inr t \<Rightarrow> Some (mt_root t))"

definition sameRecipient :: "string \<Rightarrow> int \<times> leaf \<Rightarrow> bool" where
  "sameRecipient rcpt v = (toLowerCase (fst (snd v)) = toLowerCase rcpt)"

text \<open>The sum of the amounts of the rows of one token.\<close>

definition rowAmount :: "string \<Rightarrow> int \<times> leaf \<Rightarrow> int" where
  "rowAmount tokenAddr v =
     (case v of (i, (r, t, a)) \<Rightarrow>
        if t = tokenAddr then (case a of NumStr n \<Rightarrow> n | BadStr \<Rightarrow> 0) else 0)"

definition tokenSum :: "string \<Rightarrow> (int \<times> leaf) list \<Rightarrow> int" where
  "tokenSum tokenAddr vs = sum_list (map (rowAmount tokenAddr) vs)"

definition rowKey :: "collation \<Rightarrow> int \<times> leaf \<Rightarrow> nat list list \<times> nat list list" where
  "rowKey key v = (key (fst (snd v)), key (fst (snd (snd v))))"


section \<open>Concrete rounds\<close>

text \<open>The addresses of the examples.\<close>

definition holderA :: string where
  "holderA = ''0x1111111111111111111111111111111111111111''"

definition holderB :: string where
  "holderB = ''0x2222222222222222222222222222222222222222''"

definition holderC :: string where
  "holderC = ''0x3333333333333333333333333333333333333333''"

definition holderD :: string where
  "holderD = ''0x4444444444444444444444444444444444444444''"

definition holderLower :: string where
  "holderLower = ''0x14dc79964da2c08b23698b3d3cc7ca32193d9955''"

definition holderMixed :: string where
  "holderMixed = ''0x14dC79964da2C08b23698B3D3cc7Ca32193d9955''"

definition rewardToken :: string where
  "rewardToken = ''0x5FC8d32690cc91D4c39d9d3abcBD16989F875707''"

definition otherToken :: string where
  "otherToken = ''0xDc64a140Aa3E981100a9becA4E685f962f0cF6C9''"

definition wrapperContract :: string where
  "wrapperContract = ''0xC1e0A9DB9eA830c52603798481045688c8AE99C2''"

definition distributorContract :: string where
  "distributorContract = ''0x0fe4223AD99dF788A6Dcad148eB4086E6389cEB6''"

text \<open>
  A stand-in for the Merkle library: the root is the text of the recipients and tokens
  in order, every leaf encodes, every in-range proof exists.
\<close>

definition demoLib :: merkle_lib where
  "demoLib =
     \<lparr>hashOk = (\<lambda>v. True),
      rootOf = (\<lambda>vs. concat (map (\<lambda>v. fst v @ fst (snd v)) vs)),
      nodesOf = (\<lambda>vs. map (\<lambda>v. fst v @ fst (snd v)) vs),
      treeIndexOf = (\<lambda>vs i. int (length vs) - 1 - int i),
      loadOk = (\<lambda>dist. format dist = ''standard-v1''),
      proofAt = (\<lambda>dist i. if i < length (values_d dist) then Some [] else None),
      verifyLeaf = (\<lambda>root v p. True)\<rparr>"

definition depositAt :: "int \<Rightarrow> string \<Rightarrow> log" where
  "depositAt n ow =
     \<lparr>log_block = n, log_address = wrapperContract, log_body = DepositLog ow ow 1 1\<rparr>"

text \<open>
  A genesis round: \<open>holderA\<close> and \<open>holderB\<close> with 1e18 and 3e18 of 4e18 shares, one
  token with balance 1e18, a fee of 10 percent.
\<close>

definition round1 :: Distributor where
  "round1 =
     \<lparr>wrapperAddr = wrapperContract,
      distributorAddr = distributorContract,
      operatorFee = Finite 10 0,
      collator = rootCollation,
      merkle = demoLib,
      cid_call = Some [],
      root_call = Some ZeroHash,
      lastProcessedBlock_call = Some 0,
      getBlockNumber = Some 17,
      getBlock = (\<lambda>n. Some ()),
      getTokens = Some [rewardToken],
      totalSupply = Some 4000000000000000000,
      wrapper_balanceOf =
        (\<lambda>u. if u = holderA then Some 1000000000000000000
             else if u = holderB then Some 3000000000000000000 else Some 0),
      erc20_balanceOf = (\<lambda>t. Some (Some 1000000000000000000)),
      erc20_balanceOfAt = (\<lambda>t n. Some (Some 0)),
      chainLogs = Some [depositAt 5 holderA, depositAt 6 holderB],
      ipfs_cat = (\<lambda>c. None),
      ipfs_add = (\<lambda>dist. Some ''QmRound1'')\<rparr>"

definition blob1 :: Distribution where
  "blob1 =
     \<lparr>format = ''standard-v1'',
      leafEncoding = [''address'', ''address'', ''uint256''],
      tree = [holderA @ rewardToken, holderB @ rewardToken],
      values_d = [(1, (holderA, rewardToken, NumStr 225000000000000000)),
                  (0, (holderB, rewardToken, NumStr 675000000000000000))],
      prevTreeCid = [],
      blockNumber = 17,
      totalDistributed = [(rewardToken, NumStr 900000000000000000)]\<rparr>"

text \<open>
  The next round: \<open>blob1\<close> is published, \<open>holderB\<close> has claimed in block 20 and, after a
  deposit in block 25, holds all 3e18 shares; \<open>holderA\<close> holds none and has not claimed;
  100 units have flowed in.
\<close>

definition round2 :: Distributor where
  "round2 =
     \<lparr>wrapperAddr = wrapperContract,
      distributorAddr = distributorContract,
      operatorFee = Finite 10 0,
      collator = rootCollation,
      merkle = demoLib,
      cid_call = Some ''QmRound1'',
      root_call = Some (holderA @ rewardToken @ holderB @ rewardToken),
      lastProcessedBlock_call = Some 17,
      getBlockNumber = Some 30,
      getBlock = (\<lambda>n. Some ()),
      getTokens = Some [rewardToken],
      totalSupply = Some 3000000000000000000,
      wrapper_balanceOf =
        (\<lambda>u. if u = holderB then Some 3000000000000000000 else Some 0),
      erc20_balanceOf = (\<lambda>t. Some (Some 325000000000000100)),
      erc20_balanceOfAt = (\<lambda>t n. Some (Some 1000000000000000000)),
      chainLogs = Some [depositAt 5 holderA, depositAt 6 holderB,
                        \<lparr>log_block = 20, log_address = distributorContract,
                         log_body = ClaimedLog holderB rewardToken 675000000000000000\<rparr>,
                        depositAt 25 holderB],
      ipfs_cat = (\<lambda>c. if c = ''QmRound1'' then Some blob1 else None),
      ipfs_add = (\<lambda>dist. Some ''QmRound2'')\<rparr>"

definition blob2 :: Distribution where
  "blob2 =
     \<lparr>format = ''standard-v1'',
      leafEncoding = [''address'', ''address'', ''uint256''],
      tree = [holderB @ rewardToken],
      values_d = [(0, (holderB, rewardToken, NumStr 675000000000000090))],
      prevTreeCid = ''QmRound1'',
      blockNumber = 30,
      totalDistributed = [(rewardToken, NumStr 900000000000000090)]\<rparr>"

text \<open>The chain names a blob but its root is the zero hash.\<close>

definition roundStale :: Distributor where
  "roundStale = round1\<lparr>cid_call := Some ''QmStale'', ipfs_cat := (\<lambda>c. Some blob1)\<rparr>"

text \<open>The root on chain is not the root of the blob the cid names.\<close>

definition roundForged :: Distributor where
  "roundForged = round2\<lparr>root_call := Some (holderB @ rewardToken)\<rparr>"






text \<open>Deposits by \<open>holderB\<close>, then \<open>holderA\<close>; and a previous blob that pays the zero address.\<close>

definition roundLate :: Distributor where
  "roundLate = round1\<lparr>chainLogs := Some [depositAt 5 holderB, depositAt 6 holderA]\<rparr>"

definition blobZero :: Distribution where
  "blobZero = blob1\<lparr>values_d := [(0, (ZeroAddress, rewardToken, NumStr 5))]\<rparr>"

text \<open>
  One account written in two ways: in lower case in the previous blob (\<open>holderLower\<close>),
  in its checksum form as the owner of a later deposit (\<open>holderMixed\<close>); two tokens with
  an inflow of 100 each.
\<close>

definition blobCase :: Distribution where
  "blobCase =
     \<lparr>format = ''standard-v1'',
      leafEncoding = [''address'', ''address'', ''uint256''],
      tree = [holderLower @ rewardToken],
      values_d = [(0, (holderLower, rewardToken, NumStr 5))],
      prevTreeCid = [],
      blockNumber = 10,
      totalDistributed = [(rewardToken, NumStr 5)]\<rparr>"

definition roundCase :: Distributor where
  "roundCase =
     \<lparr>wrapperAddr = wrapperContract,
      distributorAddr = distributorContract,
      operatorFee = Finite 0 0,
      collator = rootCollation,
      merkle = demoLib,
      cid_call = Some ''QmCase'',
      root_call = Some (holderLower @ rewardToken),
      lastProcessedBlock_call = Some 10,
      getBlockNumber = Some 20,
      getBlock = (\<lambda>n. Some ()),
      getTokens = Some [rewardToken, otherToken],
      totalSupply = Some 1,
      wrapper_balanceOf = (\<lambda>u. Some 1),
      erc20_balanceOf = (\<lambda>t. if t = rewardToken then Some (Some 105) else Some (Some 100)),
      erc20_balanceOfAt = (\<lambda>t n. if t = rewardToken then Some (Some 5) else Some (Some 0)),
      chainLogs = Some [depositAt 12 holderMixed],
      ipfs_cat = (\<lambda>c. Some blobCase),
      ipfs_add = (\<lambda>dist. Some ''QmCase2'')\<rparr>"

definition blobCase2 :: Distribution where
  "blobCase2 =
     \<lparr>format = ''standard-v1'',
      leafEncoding = [''address'', ''address'', ''uint256''],
      tree = [holderLower @ rewardToken, holderLower @ otherToken,
              holderMixed @ rewardToken, holderMixed @ otherToken],
      values_d = [(3, (holderLower, rewardToken, NumStr 105)),
                  (2, (holderLower, otherToken, NumStr 100)),
                  (1, (holderMixed, rewardToken, NumStr 100)),
                  (0, (holderMixed, otherToken, NumStr 100))],
      prevTreeCid = ''QmCase'',
      blockNumber = 20,
      totalDistributed = [(rewardToken, NumStr 205), (otherToken, NumStr 200)]\<rparr>"










text \<open>
  The second round with deposits in the last processed block (17) and in the current
  block (30), a deposit for the zero address between them, and deposits just outside the
  two blocks.
\<close>

definition roundEdges :: Distributor where
  "roundEdges =
     round2\<lparr>chainLogs := Some [depositAt 16 holderD, depositAt 17 holderC,
                                depositAt 20 ZeroAddress, depositAt 30 holderMixed,
                                depositAt 31 holderD]\<rparr>"

text \<open>
  A round of a process whose locale is Danish. The previous blob pays two recipients
  written in lower case, the first of them starting with \<open>0xaa\<close>; each holds half of the
  shares, nobody has claimed, and 200 units have flowed in.
\<close>

definition holderDane :: string where
  "holderDane = ''0xaa39a5b4e2c8d7f6a1b0c9d8e7f6a5b4c3d2e1f0''"

definition holderBee :: string where
  "holderBee = ''0xb5e2cd4f6a0c70d3b3d1c9b1a2e4f6a8c0d2e4f6''"

definition blobDanePrev :: Distribution where
  "blobDanePrev =
     \<lparr>format = ''standard-v1'',
      leafEncoding = [''address'', ''address'', ''uint256''],
      tree = [holderDane @ rewardToken, holderBee @ rewardToken],
      values_d = [(1, (holderDane, rewardToken, NumStr 450000000000000000)),
                  (0, (holderBee, rewardToken, NumStr 450000000000000000))],
      prevTreeCid = [],
      blockNumber = 17,
      totalDistributed = [(rewardToken, NumStr 900000000000000000)]\<rparr>"

definition roundDanish :: Distributor where
  "roundDanish =
     \<lparr>wrapperAddr = wrapperContract,
      distributorAddr = distributorContract,
      operatorFee = Finite 10 0,
      collator = danishCollation,
      merkle = demoLib,
      cid_call = Some ''QmDanePrev'',
      root_call = Some (holderDane @ rewardToken @ holderBee @ rewardToken),
      lastProcessedBlock_call = Some 17,
      getBlockNumber = Some 30,
      getBlock = (\<lambda>n. Some ()),
      getTokens = Some [rewardToken],
      totalSupply = Some 4000000000000000000,
      wrapper_balanceOf = (\<lambda>u. Some 2000000000000000000),
      erc20_balanceOf = (\<lambda>t. Some (Some 1000000000000000200)),
      erc20_balanceOfAt = (\<lambda>t n. Some (Some 1000000000000000000)),
      chainLogs = Some [],
      ipfs_cat = (\<lambda>c. if c = ''QmDanePrev'' then Some blobDanePrev else None),
      ipfs_add = (\<lambda>dist. Some ''QmDanish'')\<rparr>"

definition blobDanish :: Distribution where
  "blobDanish =
     \<lparr>format = ''standard-v1'',
      leafEncoding = [''address'', ''address'', ''uint256''],
      tree = [holderBee @ rewardToken, holderDane @ rewardToken],
      values_d = [(1, (holderBee, rewardToken, NumStr 450000000000000090)),
                  (0, (holderDane, rewardToken, NumStr 450000000000000090))],
      prevTreeCid = ''QmDanePrev'',
      blockNumber = 30,
      totalDistributed = [(rewardToken, NumStr 900000000000000180)]\<rparr>"

text \<open>
  The doubles nearest to 0.29 and to 0.35, and the genesis round with a fee of 0.29
  percent.
\<close>

definition fee029 :: number where
  "fee029 = Finite 5224175567749775 (- 54)"

definition fee035 :: number where
  "fee035 = Finite 6305039478318694 (- 54)"

definition roundFee029 :: Distributor where
  "roundFee029 = round1\<lparr>operatorFee := fee029\<rparr>"

text \<open>A blob in a format that the Merkle library does not load.\<close>

definition blobUnknown :: Distribution where
  "blobUnknown = blob1\<lparr>format := ''standard-v2''\<rparr>"

section \<open>The error monad\<close>

lemma bindE_simps [simp]:
  "bindE (Inl e) f = Inl e"
  "bindE (Inr x) f = f x"
  by (simp_all add: bindE_def)

lemma rpc_simps [simp]:
  "rpc None = Inl RpcFailure"
  "rpc (Some x) = Inr x"
  by (simp_all add: rpc_def)

lemma bindE_Inr_iff:
  "bindE m f = Inr y \<longleftrightarrow> (\<exists>x. m = Inr x \<and> f x = Inr y)"
  by (cases m) simp_all

lemma isl_bindE: "isl (bindE m f) \<longleftrightarrow> isl m \<or> (\<exists>x. m = Inr x \<and> isl (f x))"
  by (cases m) simp_all

text \<open>Unfolding sets for the evaluation of a concrete round.\<close>

lemmas string_defs = toLowerCase_def lowerChar_def isUpper_def depositTopic_def claimedTopic_def
  ethers_id_def addressTopic_def ZeroAddress_def ZeroHash_def

lemmas number_defs = feeBasisPoints_def toDouble_def roundHalfEven_def bitLength.simps

lemmas method_defs = generateDistribution_def uploadRound_def getPreviousDistributionInfo_def
  loadPrevious_def roundFrom_def distributeAmong_def getWrapperUsers_def getLogs_def matchLog_def
  collectUsers_def set_add_def processToken_def previousTotal_def
  calculateDistributableAmount_def getDistributorTokenBalance_def
  getDistributorBalanceAtBlock_def getClaimedAmountSinceLastReport_def bigint_div_def
  bigint_quot_def precision_def previousAmount_def toString_def array_sort_def
  compareClaims_def localeCompare_def rootCollation_def generateMerkleTree_def
  StandardMerkleTree_of_def validatePreviousDistribution_def number_defs Let_def

lemmas address_defs = holderA_def holderB_def holderC_def holderD_def holderLower_def
  holderMixed_def
  rewardToken_def otherToken_def wrapperContract_def distributorContract_def

lemmas round_defs = round1_def round2_def blob1_def blob2_def demoLib_def depositAt_def
  address_defs

lemma round1_generates:
  "generateDistribution round1 =
     (Inr \<lparr>distribution = blob1, merkleRoot = holderA @ rewardToken @ holderB @ rewardToken,
           cid = ''QmRound1''\<rparr>, [blob1])"
  by (simp add: method_defs string_defs round_defs)

lemma round2_generates:
  "generateDistribution round2 =
     (Inr \<lparr>distribution = blob2, merkleRoot = holderB @ rewardToken, cid = ''QmRound2''\<rparr>,
      [blob2])"
  by (simp add: method_defs string_defs round_defs)

section \<open>The distributable amount\<close>

lemma sumClaimed_acc: "sumClaimed ls acc = acc + sum_list (map claimedAmount ls)"
proof (induction ls arbitrary: acc)
  case Nil
  then show ?case by simp
next
  case (Cons l ls)
  show ?case
  proof (cases "log_body l")
    case (ClaimedLog r t a)
    then show ?thesis using Cons.IH [of "acc + a"] by (simp add: claimedAmount_def)
  next
    case (DepositLog s ow a sh)
    then show ?thesis using Cons.IH [of acc] by (simp add: claimedAmount_def)
  next
    case (RawLog ts)
    then show ?thesis using Cons.IH [of acc]
      by (simp add: claimedAmount_def split: list.splits)
  qed
qed

lemma sum_claimed_filter:
  "sum_list (map claimedAmount
     (filter (matchLog \<lparr>fromBlock = fromB, toBlock = Latest, address_f = distributorAddr d,
                topics_f = [Some claimedTopic, None, Some (addressTopic tokenAddr)]\<rparr>) ls))
   = claimedSince d tokenAddr fromB ls"
proof (induction ls)
  case Nil
  then show ?case by (simp add: claimedSince_def)
next
  case (Cons l ls)
  have "(if matchLog \<lparr>fromBlock = fromB, toBlock = Latest, address_f = distributorAddr d,
                topics_f = [Some claimedTopic, None, Some (addressTopic tokenAddr)]\<rparr> l
         then claimedAmount l else 0) = claimedFor d tokenAddr fromB l"
    by (cases "log_body l")
       (auto simp: matchLog_def claimedAmount_def claimedFor_def addressTopic_def)
  with Cons show ?case by (auto simp: claimedSince_def split: if_splits)
qed

lemma getClaimed_eq:
  "chainLogs d = Some ls \<Longrightarrow>
   getClaimedAmountSinceLastReport d tokenAddr fromB Latest = Inr (claimedSince d tokenAddr fromB ls)"
  by (simp add: getClaimedAmountSinceLastReport_def getLogs_def sumClaimed_acc sum_claimed_filter)

text \<open>
  C2. When the current balance can be read, \<open>calculateDistributableAmount\<close> returns it in
  a genesis round; with a previous blob (and the logs and the balance at its block
  readable) it returns the current balance minus (the balance at the previous blob's
  block minus the sum of the \<open>Claimed\<close> amounts of the token from the block after it to
  the latest), or zero when that is negative.
\<close>

theorem calculateDistributableAmount_spec:
  assumes cur: "erc20_balanceOf d tokenAddr = Some (Some currentBalance)"
  shows "calculateDistributableAmount d tokenAddr None = Inr currentBalance
    \<and> (chainLogs d = Some ls
         \<and> erc20_balanceOfAt d tokenAddr (blockNumber prev) = Some (Some previousBalance)
       \<longrightarrow> calculateDistributableAmount d tokenAddr (Some prev) =
            Inr (max 0 (currentBalance
                   - (previousBalance - claimedSince d tokenAddr (blockNumber prev + 1) ls))))"
proof -
  have genesis: "calculateDistributableAmount d tokenAddr None = Inr currentBalance"
    using cur by (simp add: calculateDistributableAmount_def getDistributorTokenBalance_def)
  have later: "calculateDistributableAmount d tokenAddr (Some prev) =
            Inr (max 0 (currentBalance
                   - (previousBalance - claimedSince d tokenAddr (blockNumber prev + 1) ls)))"
    if "chainLogs d = Some ls"
      and "erc20_balanceOfAt d tokenAddr (blockNumber prev) = Some (Some previousBalance)"
    using cur that getClaimed_eq [OF that(1), of tokenAddr "blockNumber prev + 1"]
    by (auto simp: calculateDistributableAmount_def getDistributorTokenBalance_def
        getDistributorBalanceAtBlock_def max_def)
  from genesis later show ?thesis by blast
qed

theorem calculateDistributableAmount_spec_witness:
  "erc20_balanceOf round2 rewardToken = Some (Some 325000000000000100)
   \<and> erc20_balanceOfAt round2 rewardToken (blockNumber blob1) = Some (Some 1000000000000000000)
   \<and> claimedSince round2 rewardToken (blockNumber blob1 + 1)
        [depositAt 5 holderA, depositAt 6 holderB,
         \<lparr>log_block = 20, log_address = distributorContract,
          log_body = ClaimedLog holderB rewardToken 675000000000000000\<rparr>,
         depositAt 25 holderB] = 675000000000000000
   \<and> calculateDistributableAmount round2 rewardToken None = Inr 325000000000000100
   \<and> calculateDistributableAmount round2 rewardToken (Some blob1) = Inr 100"
proof -
  have cur: "erc20_balanceOf round2 rewardToken = Some (Some 325000000000000100)"
    by (simp add: round2_def)
  have logs: "chainLogs round2 = Some [depositAt 5 holderA, depositAt 6 holderB,
         \<lparr>log_block = 20, log_address = distributorContract,
          log_body = ClaimedLog holderB rewardToken 675000000000000000\<rparr>,
         depositAt 25 holderB]"
    by (simp add: round2_def)
  have prevBal: "erc20_balanceOfAt round2 rewardToken (blockNumber blob1)
                   = Some (Some 1000000000000000000)"
    by (simp add: round2_def)
  have sum: "claimedSince round2 rewardToken (blockNumber blob1 + 1)
        [depositAt 5 holderA, depositAt 6 holderB,
         \<lparr>log_block = 20, log_address = distributorContract,
          log_body = ClaimedLog holderB rewardToken 675000000000000000\<rparr>,
         depositAt 25 holderB] = 675000000000000000"
    by (simp add: claimedSince_def claimedFor_def depositAt_def blob1_def round2_def string_defs)
  from calculateDistributableAmount_spec [OF cur, of _ blob1 1000000000000000000] logs prevBal sum
  show ?thesis using cur by simp
qed

section \<open>The apportioning of one token\<close>

lemma processUsers_eq:
  assumes "supply \<noteq> 0"
    and "\<forall>u \<in> set users. wrapper_balanceOf d u = Some (b u)"
  shows "processUsers d pc tok actual supply users (cs, t0) =
     Inr (cs @ map (\<lambda>u. \<lparr>recipient = u, token = tok,
                         amount = previousAmount pc u tok + allocation actual supply (b u)\<rparr>)
                 (emitted actual supply b users),
          t0 + sum_list (map (\<lambda>u. allocation actual supply (b u)) (emitted actual supply b users)))"
  using assms
proof (induction users arbitrary: cs t0)
  case Nil
  then show ?case by (simp add: emitted_def)
next
  case (Cons u us)
  then have bal: "wrapper_balanceOf d u = Some (b u)"
    and rest: "\<forall>u \<in> set us. wrapper_balanceOf d u = Some (b u)" by simp_all
  note IH = Cons.IH [OF Cons.prems(1) rest]
  show ?case
    using bal Cons.prems(1)
    by (simp add: IH emitted_def bigint_div_def allocation_def precision_def Let_def)
qed

text \<open>
  C3, as the code has it. For a token with positive distributable amount \<open>D\<close>, a fee
  \<open>operatorFee\<close> for which \<open>Math.floor(operatorFee * 100)\<close>, the product being the product
  of doubles, is the integer \<open>bps\<close>, total supply \<open>supply > 0\<close> and wrapper balances \<open>b\<close>:
  the fee is \<open>D * bps / 10000\<close>, the rest \<open>afterFee D bps\<close> is split as
  \<open>actual * (b * 10^18 / supply) / 10^18\<close>, each division truncating; the rows appended
  are those of the users with a positive balance and a positive share, in the order of
  the users, each holding the previous amount plus the share; the token's total grows by
  the shares.
\<close>

theorem processToken_apportions:
  assumes "previousTotal prev tok = Inr t0"
    and "calculateDistributableAmount d tok prev = Inr D"
    and "0 < D"
    and "feeBasisPoints (operatorFee d) = Inr bps"
    and "0 < supply"
    and "\<forall>u \<in> set users. wrapper_balanceOf d u = Some (b u)"
  shows "processToken d prev pc users supply tok (cs, totals) =
     Inr (cs @ map (\<lambda>u. \<lparr>recipient = u, token = tok,
                         amount = previousAmount pc u tok
                                  + allocation (afterFee D bps) supply (b u)\<rparr>)
                 (emitted (afterFee D bps) supply b users),
          obj_set tok
            (toString (t0 + sum_list (map (\<lambda>u. allocation (afterFee D bps) supply (b u))
                                  (emitted (afterFee D bps) supply b users))))
            totals)"
proof -
  from assms(5) have "supply \<noteq> 0" by simp
  from processUsers_eq [OF this assms(6)] assms(1-4) show ?thesis
    by (simp add: processToken_def Let_def afterFee_def)
qed

theorem processToken_apportions_witness:
  "previousTotal None rewardToken = Inr 0
   \<and> calculateDistributableAmount roundFee029 rewardToken None = Inr 1000000000000000000
   \<and> feeBasisPoints (operatorFee roundFee029) = Inr 28
   \<and> afterFee 1000000000000000000 28 = 997200000000000000
   \<and> allocation 997200000000000000 4000000000000000000 1000000000000000000 = 249300000000000000
   \<and> allocation 997200000000000000 4000000000000000000 3000000000000000000 = 747900000000000000
   \<and> allocation 997200000000000000 4000000000000000000 0 = 0
   \<and> processToken roundFee029 None Map.empty [holderA, holderC, holderB]
        4000000000000000000 rewardToken ([], []) =
      Inr ([\<lparr>recipient = holderA, token = rewardToken, amount = 249300000000000000\<rparr>,
            \<lparr>recipient = holderB, token = rewardToken, amount = 747900000000000000\<rparr>],
           [(rewardToken, NumStr 997200000000000000)])"
proof -
  define b :: "string \<Rightarrow> int" where
    "b = (\<lambda>u. if u = holderA then 1000000000000000000
              else if u = holderB then 3000000000000000000 else 0)"
  have h1: "previousTotal None rewardToken = Inr 0" by (simp add: previousTotal_def)
  have h2: "calculateDistributableAmount roundFee029 rewardToken None = Inr 1000000000000000000"
    by (simp add: calculateDistributableAmount_def getDistributorTokenBalance_def
        roundFee029_def round1_def)
  have h3: "(0::int) < 1000000000000000000" by simp
  have h4: "feeBasisPoints (operatorFee roundFee029) = Inr 28"
    by (simp add: roundFee029_def fee029_def number_defs Let_def)
  have h5: "(0::int) < 4000000000000000000" by simp
  have h6: "\<forall>u \<in> set [holderA, holderC, holderB]. wrapper_balanceOf roundFee029 u = Some (b u)"
    by (simp add: roundFee029_def round1_def b_def address_defs)
  have fee: "afterFee 1000000000000000000 28 = 997200000000000000"
    by (simp add: afterFee_def bigint_quot_def)
  have a1: "allocation 997200000000000000 4000000000000000000 1000000000000000000
              = 249300000000000000"
    and a2: "allocation 997200000000000000 4000000000000000000 3000000000000000000
              = 747900000000000000"
    and a3: "allocation 997200000000000000 4000000000000000000 0 = 0"
    by (simp_all add: allocation_def bigint_quot_def)
  from processToken_apportions [OF h1 h2 h3 h4 h5 h6, of Map.empty "[]" "[]"]
  have "processToken roundFee029 None Map.empty [holderA, holderC, holderB]
        4000000000000000000 rewardToken ([], []) =
      Inr ([\<lparr>recipient = holderA, token = rewardToken, amount = 249300000000000000\<rparr>,
            \<lparr>recipient = holderB, token = rewardToken, amount = 747900000000000000\<rparr>],
           [(rewardToken, NumStr 997200000000000000)])"
    by (simp add: fee emitted_def b_def a1 a2 a3 previousAmount_def toString_def address_defs)
  with h1 h2 h4 fee a1 a2 a3 show ?thesis by simp
qed

text \<open>
  Against C3 as stated. A fee of 0.29 percent is the double \<open>fee029\<close>, the one nearest to
  29/100; its product with 100 rounds to a double just below 29, so the multiplier is 28
  and not 29, and of a distributable amount of 10^18 the fee is 28 * 10^14, leaving
  997200000000000000 and not \<open>afterFee 10^18 29\<close>. And the multiplier is not the exact
  hundredfold of the double rounded down either: for the double \<open>fee035\<close> nearest to
  35/100, which lies below 35/100, the product rounds up to 35 while the exact hundredfold
  rounds down to 34.
\<close>

theorem fee_multiplier_counterexample:
  "nearestTo fee029 29 100
   \<and> feeBasisPoints fee029 = Inr 28
   \<and> operatorFee roundFee029 = fee029
   \<and> calculateDistributableAmount roundFee029 rewardToken None = Inr 1000000000000000000
   \<and> processToken roundFee029 None Map.empty [holderA, holderB]
        4000000000000000000 rewardToken ([], []) =
      Inr ([\<lparr>recipient = holderA, token = rewardToken, amount = 249300000000000000\<rparr>,
            \<lparr>recipient = holderB, token = rewardToken, amount = 747900000000000000\<rparr>],
           [(rewardToken, NumStr 997200000000000000)])
   \<and> afterFee 1000000000000000000 29 = 997100000000000000
   \<and> nearestTo fee035 35 100
   \<and> feeBasisPoints fee035 = Inr 35
   \<and> exactBasisPoints fee035 = Some 34"
  by (simp add: fee029_def fee035_def number_defs Let_def afterFee_def)
     (simp add: method_defs roundFee029_def round1_def fee029_def address_defs)

section \<open>Proofs of membership\<close>

lemma findIndex_None: "findIndex P xs = None \<longleftrightarrow> (\<forall>x \<in> set xs. \<not> P x)"
  by (induction xs) auto

lemma findIndex_Some:
  "findIndex P xs = Some i \<Longrightarrow> i < length xs \<and> P (xs ! i) \<and> (\<forall>j < i. \<not> P (xs ! j))"
proof (induction xs arbitrary: i)
  case Nil
  then show ?case by simp
next
  case (Cons x xs)
  show ?case
  proof (cases "P x")
    case True
    with Cons.prems show ?thesis by simp
  next
    case False
    with Cons.prems obtain k where k: "findIndex P xs = Some k" "i = Suc k" by auto
    from Cons.IH [OF k(1)] False k(2) show ?thesis
      by (auto simp: less_Suc_eq_0_disj)
  qed
qed

lemma sameRecipient_fun:
  "(\<lambda>v. toLowerCase (fst (snd v)) = toLowerCase rcpt) = sameRecipient rcpt"
  by (simp add: sameRecipient_def fun_eq_iff)

text \<open>
  C9, as the code has it. Proof generation by index answers \<open>null\<close> exactly when the
  index fails the range test, which for an integer index is: negative, or at least the
  length of \<open>values\<close>. For a blob that the library loads and for which it yields a proof
  at every index of \<open>values\<close>: an integer index in range gets the library's proof with
  the value at that index; proof generation by recipient answers \<open>null\<close> exactly when no
  row's recipient equals the requested address after lower-casing both, and otherwise
  answers the proof and the value of the first row whose recipient does. For a blob that
  the library does not load, proof generation by recipient throws whatever the recipient,
  and proof generation by index throws for every integer index in range. An index that
  passes the range test without being a non-negative integer, as \<open>NaN\<close> does, throws.
\<close>

theorem proof_generation_found_or_null:
  "(generateProofByIndex lib dist index = Inr None
      \<longleftrightarrow> num_lt index 0 \<or> num_ge index (int (length (values_d dist))))
   \<and> (generateProofByIndex lib dist (Finite n 0) = Inr None
      \<longleftrightarrow> n < 0 \<or> int (length (values_d dist)) \<le> n)
   \<and> (loadOk lib dist \<and> (\<forall>i < length (values_d dist). proofAt lib dist i \<noteq> None) \<longrightarrow>
        (0 \<le> n \<and> n < int (length (values_d dist)) \<longrightarrow>
           (\<exists>p. proofAt lib dist (nat n) = Some p
              \<and> generateProofByIndex lib dist (Finite n 0) =
                  Inr (Some \<lparr>pr_proof = p, pr_value = snd (values_d dist ! nat n),
                             pr_treeIndex = fst (values_d dist ! nat n)\<rparr>)))
      \<and> (generateProofForRecipient lib dist rcpt = Inr None
            \<longleftrightarrow> \<not> list_ex (sameRecipient rcpt) (values_d dist))
      \<and> (list_ex (sameRecipient rcpt) (values_d dist) \<longrightarrow>
           (\<exists>i p. i < length (values_d dist) \<and> sameRecipient rcpt (values_d dist ! i)
              \<and> (\<forall>j < i. \<not> sameRecipient rcpt (values_d dist ! j))
              \<and> proofAt lib dist i = Some p
              \<and> generateProofForRecipient lib dist rcpt =
                  Inr (Some \<lparr>pr_proof = p, pr_value = snd (values_d dist ! i),
                             pr_treeIndex = int i\<rparr>))))
   \<and> (\<not> loadOk lib dist \<longrightarrow>
        generateProofForRecipient lib dist rcpt = Inl MerkleFailure
      \<and> (0 \<le> n \<and> n < int (length (values_d dist)) \<longrightarrow>
           generateProofByIndex lib dist (Finite n 0) = Inl MerkleFailure))
   \<and> (\<not> num_lt index 0 \<and> \<not> num_ge index (int (length (values_d dist)))
        \<and> arrayIndex index = None \<longrightarrow> isl (generateProofByIndex lib dist index))
   \<and> isl (generateProofByIndex lib dist NaN)"
proof -
  have general: "generateProofByIndex lib dist index = Inr None
      \<longleftrightarrow> num_lt index 0 \<or> num_ge index (int (length (values_d dist)))" for index
    by (auto simp: generateProofByIndex_def StandardMerkleTree_load_def getProof_def bindE_Inr_iff
        split: option.splits)
  have byIndex: "generateProofByIndex lib dist (Finite n 0) = Inr None
      \<longleftrightarrow> n < 0 \<or> int (length (values_d dist)) \<le> n"
    by (simp add: general)
  have inRange: "\<exists>p. proofAt lib dist (nat n) = Some p
            \<and> generateProofByIndex lib dist (Finite n 0) =
                Inr (Some \<lparr>pr_proof = p, pr_value = snd (values_d dist ! nat n),
                           pr_treeIndex = fst (values_d dist ! nat n)\<rparr>)"
    if load: "loadOk lib dist"
      and proofs: "\<forall>i < length (values_d dist). proofAt lib dist i \<noteq> None"
      and r: "0 \<le> n" "n < int (length (values_d dist))"
  proof -
    from r have "nat n < length (values_d dist)" by simp
    with proofs obtain p where p: "proofAt lib dist (nat n) = Some p" by auto
    with r load show ?thesis
      by (simp add: generateProofByIndex_def StandardMerkleTree_load_def getProof_def)
  qed
  have found: "\<exists>i p. i < length (values_d dist) \<and> sameRecipient rcpt (values_d dist ! i)
            \<and> (\<forall>j < i. \<not> sameRecipient rcpt (values_d dist ! j))
            \<and> proofAt lib dist i = Some p
            \<and> generateProofForRecipient lib dist rcpt =
                Inr (Some \<lparr>pr_proof = p, pr_value = snd (values_d dist ! i),
                           pr_treeIndex = int i\<rparr>)"
    if load: "loadOk lib dist"
      and proofs: "\<forall>i < length (values_d dist). proofAt lib dist i \<noteq> None"
      and ex: "list_ex (sameRecipient rcpt) (values_d dist)"
  proof -
    from ex have "findIndex (sameRecipient rcpt) (values_d dist) \<noteq> None"
      by (simp add: findIndex_None list_ex_iff)
    then obtain i where i: "findIndex (sameRecipient rcpt) (values_d dist) = Some i" by auto
    from findIndex_Some [OF i] have lt: "i < length (values_d dist)"
      and same: "sameRecipient rcpt (values_d dist ! i)"
      and first: "\<forall>j < i. \<not> sameRecipient rcpt (values_d dist ! j)" by simp_all
    from lt proofs obtain p where p: "proofAt lib dist i = Some p" by auto
    from i p load have "generateProofForRecipient lib dist rcpt =
                Inr (Some \<lparr>pr_proof = p, pr_value = snd (values_d dist ! i),
                           pr_treeIndex = int i\<rparr>)"
      by (simp add: generateProofForRecipient_def StandardMerkleTree_load_def getProof_def
          sameRecipient_fun)
    with lt same first p show ?thesis by blast
  qed
  have byRecipient: "generateProofForRecipient lib dist rcpt = Inr None
            \<longleftrightarrow> \<not> list_ex (sameRecipient rcpt) (values_d dist)"
    if load: "loadOk lib dist"
      and proofs: "\<forall>i < length (values_d dist). proofAt lib dist i \<noteq> None"
  proof (cases "list_ex (sameRecipient rcpt) (values_d dist)")
    case True
    with found [OF load proofs] show ?thesis by auto
  next
    case False
    then have "findIndex (sameRecipient rcpt) (values_d dist) = None"
      by (simp add: findIndex_None list_ex_iff)
    with load False show ?thesis
      by (simp add: generateProofForRecipient_def StandardMerkleTree_load_def sameRecipient_fun)
  qed
  have rejected: "generateProofForRecipient lib dist rcpt = Inl MerkleFailure
      \<and> (0 \<le> n \<and> n < int (length (values_d dist)) \<longrightarrow>
           generateProofByIndex lib dist (Finite n 0) = Inl MerkleFailure)"
    if "\<not> loadOk lib dist"
    using that
    by (simp add: generateProofForRecipient_def generateProofByIndex_def
        StandardMerkleTree_load_def)
  have notInteger: "isl (generateProofByIndex lib dist index)"
    if "\<not> num_lt index 0" "\<not> num_ge index (int (length (values_d dist)))"
      "arrayIndex index = None" for index
    using that by (simp add: generateProofByIndex_def StandardMerkleTree_load_def)
  have nan: "isl (generateProofByIndex lib dist NaN)"
    by (rule notInteger) simp_all
  from general [of index] byIndex inRange found byRecipient rejected notInteger [of index] nan
  show ?thesis by blast
qed

theorem proof_generation_found_or_null_witness:
  "loadOk demoLib blob1
   \<and> proofAt demoLib blob1 0 = Some [] \<and> proofAt demoLib blob1 1 = Some []
   \<and> generateProofByIndex demoLib blob1 (Finite 2 0) = Inr None
   \<and> generateProofByIndex demoLib blob1 (Finite (- 1) 0) = Inr None
   \<and> generateProofByIndex demoLib blob1 (Finite 1 0) =
       Inr (Some \<lparr>pr_proof = [], pr_value = (holderB, rewardToken, NumStr 675000000000000000),
                  pr_treeIndex = 0\<rparr>)
   \<and> generateProofForRecipient demoLib blob1 ''0X3333333333333333333333333333333333333333'' = Inr None
   \<and> list_ex (sameRecipient ''0X2222222222222222222222222222222222222222'') (values_d blob1)
   \<and> \<not> loadOk demoLib blobUnknown
   \<and> generateProofForRecipient demoLib blobUnknown holderC = Inl MerkleFailure
   \<and> generateProofByIndex demoLib blobUnknown (Finite 1 0) = Inl MerkleFailure
   \<and> arrayIndex (Finite 1 (- 1)) = None
   \<and> isl (generateProofByIndex demoLib blob1 (Finite 1 (- 1)))"
proof -
  have load: "loadOk demoLib blob1" by (simp add: demoLib_def blob1_def)
  have proofs: "\<forall>i < length (values_d blob1). proofAt demoLib blob1 i \<noteq> None"
    by (simp add: demoLib_def)
  have p: "proofAt demoLib blob1 0 = Some []" "proofAt demoLib blob1 1 = Some []"
    by (simp_all add: demoLib_def blob1_def)
  have absent: "\<not> list_ex (sameRecipient ''0X3333333333333333333333333333333333333333'') (values_d blob1)"
    and present: "list_ex (sameRecipient ''0X2222222222222222222222222222222222222222'') (values_d blob1)"
    by (simp_all add: sameRecipient_def blob1_def string_defs address_defs)
  have len: "length (values_d blob1) = 2" "values_d blob1 ! 1 =
      (0, (holderB, rewardToken, NumStr 675000000000000000))"
    by (simp_all add: blob1_def)
  have unknown: "\<not> loadOk demoLib blobUnknown" "length (values_d blobUnknown) = 2"
    by (simp_all add: demoLib_def blobUnknown_def blob1_def)
  have half: "\<not> num_lt (Finite 1 (- 1)) 0" "\<not> num_ge (Finite 1 (- 1)) 2"
    "arrayIndex (Finite 1 (- 1)) = None"
    by simp_all
  from proof_generation_found_or_null [of demoLib blob1 _ 2 "''0X3333333333333333333333333333333333333333''"]
    load proofs absent len
  have a: "generateProofByIndex demoLib blob1 (Finite 2 0) = Inr None"
    and b: "generateProofForRecipient demoLib blob1 ''0X3333333333333333333333333333333333333333'' = Inr None"
    by simp_all
  from proof_generation_found_or_null [of demoLib blob1 _ "- 1"]
  have c: "generateProofByIndex demoLib blob1 (Finite (- 1) 0) = Inr None" by simp
  from proof_generation_found_or_null [of demoLib blob1 _ 1] load proofs len p
  have d: "generateProofByIndex demoLib blob1 (Finite 1 0) =
       Inr (Some \<lparr>pr_proof = [], pr_value = (holderB, rewardToken, NumStr 675000000000000000),
                  pr_treeIndex = 0\<rparr>)" by simp
  from proof_generation_found_or_null [of demoLib blobUnknown _ 1 holderC] unknown
  have e: "generateProofForRecipient demoLib blobUnknown holderC = Inl MerkleFailure"
    and f: "generateProofByIndex demoLib blobUnknown (Finite 1 0) = Inl MerkleFailure"
    by simp_all
  from proof_generation_found_or_null [of demoLib blob1 "Finite 1 (- 1)"] half len
  have g: "isl (generateProofByIndex demoLib blob1 (Finite 1 (- 1)))" by simp
  from load p a b c d present unknown e f half g show ?thesis by simp
qed

text \<open>
  Against C9 as stated: \<open>blobUnknown\<close> passes the field checks of \<open>loadDistribution\<close> but
  the library does not load its format; no row of it pays \<open>holderC\<close>, yet proof generation
  for \<open>holderC\<close> throws instead of answering \<open>null\<close>, and index 0, which is in range, gets
  no proof. On \<open>blob1\<close>, which the library does load, the index \<open>NaN\<close> is neither negative
  nor at least the length, and it gets neither \<open>null\<close> nor a proof.
\<close>

theorem proof_generation_counterexample:
  "\<not> list_ex (sameRecipient holderC) (values_d blobUnknown)
   \<and> generateProofForRecipient demoLib blobUnknown holderC = Inl MerkleFailure
   \<and> length (values_d blobUnknown) = 2
   \<and> generateProofByIndex demoLib blobUnknown (Finite 0 0) = Inl MerkleFailure
   \<and> loadOk demoLib blob1
   \<and> \<not> num_lt NaN 0
   \<and> \<not> num_ge NaN (int (length (values_d blob1)))
   \<and> generateProofByIndex demoLib blob1 NaN = Inl TypeError"
  by (simp add: generateProofForRecipient_def generateProofByIndex_def
      StandardMerkleTree_load_def demoLib_def blobUnknown_def blob1_def sameRecipient_def
      string_defs address_defs)

text \<open>
  C10. \<open>verifyProof\<close> does not depend on the root it is given: the proof is checked
  against the root of a tree built from the value alone.
\<close>

theorem verifyProof_ignores_root:
  "verifyProof lib v proof r1 = verifyProof lib v proof r2
   \<and> verifyProof lib v proof r1 =
       (if hashOk lib v then Inr (verifyLeaf lib (rootOf lib [v]) v proof)
        else Inl MerkleFailure)"
  by (simp add: verifyProof_def StandardMerkleTree_of_def)

section \<open>The candidate list\<close>

lemma set_firstOccurrences [simp]: "set (firstOccurrences xs) = set xs"
  by (simp add: firstOccurrences_def)

lemma distinct_firstOccurrences [simp]: "distinct (firstOccurrences xs)"
  by (simp add: firstOccurrences_def)

lemma firstOccurrences_snoc:
  "firstOccurrences (xs @ [x]) =
     (if x \<in> set xs then firstOccurrences xs else firstOccurrences xs @ [x])"
  by (simp add: firstOccurrences_def)

lemma foldl_set_add: "foldl set_add [] xs = firstOccurrences xs"
proof (induction xs rule: rev_induct)
  case Nil
  then show ?case by (simp add: firstOccurrences_def)
next
  case (snoc x xs)
  then show ?case by (simp add: firstOccurrences_snoc set_add_def)
qed

lemma foldl_set_add_from:
  "foldl set_add (firstOccurrences xs) ys = firstOccurrences (xs @ ys)"
  using foldl_set_add [of "xs @ ys"] by (simp add: foldl_set_add)

lemma collectUsers_first:
  "collectUsers prev newUsers = firstOccurrences (previousRecipients prev @ newUsers)"
  by (cases prev) (simp_all add: collectUsers_def previousRecipients_def foldl_set_add
      foldl_set_add_from)

lemma depositOwners_fold:
  "depositOwners ls acc =
     foldl set_add acc
       (concat (map (\<lambda>l. case parseDeposit (log_body l) of
                            Parsed (s, ow, a, sh) \<Rightarrow> [ow] | ParseNull \<Rightarrow> [] | ParseThrows \<Rightarrow> []) ls))"
proof (induction ls arbitrary: acc)
  case Nil
  then show ?case by simp
next
  case (Cons l ls)
  show ?case
    by (cases "parseDeposit (log_body l)") (auto simp: Cons.IH)
qed

lemma claimed_not_deposit: "claimedTopic \<noteq> depositTopic"
  by (simp add: claimedTopic_def depositTopic_def ethers_id_def)

lemma parsedOwner_filter:
  "concat (map (\<lambda>l. case parseDeposit (log_body l) of
                      Parsed (s, ow, a, sh) \<Rightarrow> [ow] | ParseNull \<Rightarrow> [] | ParseThrows \<Rightarrow> [])
     (filter (matchLog \<lparr>fromBlock = fromB, toBlock = BlockNum toB, address_f = wrapperAddr d,
                topics_f = [Some depositTopic]\<rparr>) ls))
   = depositOwnersIn d fromB toB ls"
proof (induction ls)
  case Nil
  then show ?case by (simp add: depositOwnersIn_def)
next
  case (Cons l ls)
  have "(if matchLog \<lparr>fromBlock = fromB, toBlock = BlockNum toB, address_f = wrapperAddr d,
                topics_f = [Some depositTopic]\<rparr> l
         then (case parseDeposit (log_body l) of
                 Parsed (s, ow, a, sh) \<Rightarrow> [ow] | ParseNull \<Rightarrow> [] | ParseThrows \<Rightarrow> [])
         else [])
        = depositOwnerOf d fromB toB l"
    using claimed_not_deposit
    by (cases "log_body l") (auto simp: matchLog_def split: list.splits)
  with Cons show ?case by (auto simp: depositOwnersIn_def split: if_splits)
qed

lemma getWrapperUsers_eq:
  "chainLogs d = Some ls \<Longrightarrow>
   getWrapperUsers d fromB toB =
     Inr (filter (\<lambda>a. a \<noteq> ZeroAddress) (firstOccurrences (depositOwnersIn d fromB toB ls)))"
  by (simp add: getWrapperUsers_def getLogs_def depositOwners_fold foldl_set_add
      parsedOwner_filter)

lemma candidateList_collect:
  "chainLogs d = Some ls \<Longrightarrow>
   bindE (getWrapperUsers d fromB toB) (\<lambda>newUsers. f (collectUsers prev newUsers)) =
     f (candidateList d prev fromB toB ls)"
  by (simp add: getWrapperUsers_eq collectUsers_first candidateList_def)

text \<open>
  C8, as the code has it. When the previous blob (if any) is loaded and the last
  processed block, the current block and the logs are read, \<open>generateDistribution\<close>
  distributes among the candidate list of the round: the previous blob's recipients
  followed by the new users, each kept at its first occurrence. The new users are the
  owners of the wrapper's \<open>Deposit\<close> events in the blocks from the last processed block
  to the current block, both included, without the zero address, in the order of their
  first event. The list has no duplicates; its members are the previous recipients (the
  zero address too, were it one) and the non-zero owners. It is in insertion order, not
  in the order of the addresses.
\<close>

theorem candidate_list_insertion_order:
  assumes "loadPrevious d (getPreviousDistributionInfo d) = Inr prev"
    and "lastProcessedBlock_call d = Some lastProcessed"
    and "getBlockNumber d = Some current"
    and "getBlock d current = Some ()"
    and "chainLogs d = Some ls"
  shows "generateDistribution d =
           uploadRound d (distributeAmong d (getPreviousDistributionInfo d) prev current
                            (candidateList d prev lastProcessed current ls))
    \<and> getWrapperUsers d lastProcessed current =
           Inr (filter (\<lambda>a. a \<noteq> ZeroAddress)
                  (firstOccurrences (depositOwnersIn d lastProcessed current ls)))
    \<and> candidateList d prev lastProcessed current ls =
           firstOccurrences
             (previousRecipients prev
              @ filter (\<lambda>a. a \<noteq> ZeroAddress)
                  (firstOccurrences (depositOwnersIn d lastProcessed current ls)))
    \<and> distinct (candidateList d prev lastProcessed current ls)
    \<and> set (candidateList d prev lastProcessed current ls) =
           set (previousRecipients prev)
           \<union> (set (depositOwnersIn d lastProcessed current ls) - {ZeroAddress})"
proof -
  have "roundFrom d (getPreviousDistributionInfo d) prev =
          distributeAmong d (getPreviousDistributionInfo d) prev current
            (candidateList d prev lastProcessed current ls)"
    using assms(2-4) by (simp add: roundFrom_def Let_def candidateList_collect [OF assms(5)])
  with assms(1) have "generateDistribution d =
           uploadRound d (distributeAmong d (getPreviousDistributionInfo d) prev current
                            (candidateList d prev lastProcessed current ls))"
    by (simp add: generateDistribution_def Let_def)
  moreover have "set (candidateList d prev lastProcessed current ls) =
           set (previousRecipients prev)
           \<union> (set (depositOwnersIn d lastProcessed current ls) - {ZeroAddress})"
    by (auto simp: candidateList_def)
  ultimately show ?thesis
    by (simp add: getWrapperUsers_eq [OF assms(5)]) (simp add: candidateList_def)
qed

lemma loads_blob1:
  assumes "merkle d = demoLib" and "cid_call d = Some ''QmRound1''"
    and "root_call d = Some (holderA @ rewardToken @ holderB @ rewardToken)"
    and "ipfs_cat d ''QmRound1'' = Some blob1"
  shows "loadPrevious d (getPreviousDistributionInfo d) = Inr (Some blob1)"
  using assms
  by (simp add: getPreviousDistributionInfo_def loadPrevious_def validatePreviousDistribution_def
      generateMerkleTree_def StandardMerkleTree_of_def demoLib_def blob1_def toString_def
      ZeroHash_def address_defs)

theorem candidate_list_insertion_order_witness:
  "loadPrevious roundEdges (getPreviousDistributionInfo roundEdges) = Inr (Some blob1)
   \<and> lastProcessedBlock_call roundEdges = Some 17
   \<and> getBlockNumber roundEdges = Some 30
   \<and> chainLogs roundEdges = Some [depositAt 16 holderD, depositAt 17 holderC,
                                   depositAt 20 ZeroAddress, depositAt 30 holderMixed,
                                   depositAt 31 holderD]
   \<and> previousRecipients (Some blob1) = [holderA, holderB]
   \<and> depositOwnersIn roundEdges 17 30
         [depositAt 16 holderD, depositAt 17 holderC, depositAt 20 ZeroAddress,
          depositAt 30 holderMixed, depositAt 31 holderD]
       = [holderC, ZeroAddress, holderMixed]
   \<and> candidateList roundEdges (Some blob1) 17 30
         [depositAt 16 holderD, depositAt 17 holderC, depositAt 20 ZeroAddress,
          depositAt 30 holderMixed, depositAt 31 holderD]
       = [holderA, holderB, holderC, holderMixed]
   \<and> generateDistribution roundEdges =
       uploadRound roundEdges
         (distributeAmong roundEdges (getPreviousDistributionInfo roundEdges) (Some blob1) 30
            [holderA, holderB, holderC, holderMixed])"
proof -
  have prev: "loadPrevious roundEdges (getPreviousDistributionInfo roundEdges) = Inr (Some blob1)"
    by (rule loads_blob1) (simp_all add: roundEdges_def round2_def)
  have lp: "lastProcessedBlock_call roundEdges = Some 17"
    and cb: "getBlockNumber roundEdges = Some 30"
    and gb: "getBlock roundEdges 30 = Some ()"
    and logs: "chainLogs roundEdges = Some [depositAt 16 holderD, depositAt 17 holderC,
                                   depositAt 20 ZeroAddress, depositAt 30 holderMixed,
                                   depositAt 31 holderD]"
    by (simp_all add: roundEdges_def round2_def)
  have recipients: "previousRecipients (Some blob1) = [holderA, holderB]"
    by (simp add: previousRecipients_def blob1_def)
  have owners: "depositOwnersIn roundEdges 17 30
         [depositAt 16 holderD, depositAt 17 holderC, depositAt 20 ZeroAddress,
          depositAt 30 holderMixed, depositAt 31 holderD]
       = [holderC, ZeroAddress, holderMixed]"
    by (simp add: depositOwnersIn_def depositAt_def roundEdges_def round2_def string_defs
        address_defs)
  have first: "firstOccurrences [holderC, ZeroAddress, holderMixed]
       = [holderC, ZeroAddress, holderMixed]"
    "filter (\<lambda>a. a \<noteq> ZeroAddress) [holderC, ZeroAddress, holderMixed]
       = [holderC, holderMixed]"
    "firstOccurrences [holderA, holderB, holderC, holderMixed]
       = [holderA, holderB, holderC, holderMixed]"
    by (simp_all add: firstOccurrences_def ZeroAddress_def address_defs)
  note round = candidate_list_insertion_order [OF prev lp cb gb logs]
  from round have "candidateList roundEdges (Some blob1) 17 30
         [depositAt 16 holderD, depositAt 17 holderC, depositAt 20 ZeroAddress,
          depositAt 30 holderMixed, depositAt 31 holderD]
       = firstOccurrences
           (previousRecipients (Some blob1)
            @ filter (\<lambda>a. a \<noteq> ZeroAddress)
                (firstOccurrences (depositOwnersIn roundEdges 17 30
                   [depositAt 16 holderD, depositAt 17 holderC, depositAt 20 ZeroAddress,
                    depositAt 30 holderMixed, depositAt 31 holderD])))"
    by blast
  then have candidates: "candidateList roundEdges (Some blob1) 17 30
         [depositAt 16 holderD, depositAt 17 holderC, depositAt 20 ZeroAddress,
          depositAt 30 holderMixed, depositAt 31 holderD]
       = [holderA, holderB, holderC, holderMixed]"
    by (simp only: recipients owners first append.simps)
  from round have "generateDistribution roundEdges =
       uploadRound roundEdges
         (distributeAmong roundEdges (getPreviousDistributionInfo roundEdges) (Some blob1) 30
            (candidateList roundEdges (Some blob1) 17 30
               [depositAt 16 holderD, depositAt 17 holderC, depositAt 20 ZeroAddress,
                depositAt 30 holderMixed, depositAt 31 holderD]))"
    by blast
  then have "generateDistribution roundEdges =
       uploadRound roundEdges
         (distributeAmong roundEdges (getPreviousDistributionInfo roundEdges) (Some blob1) 30
            [holderA, holderB, holderC, holderMixed])"
    by (simp only: candidates)
  with prev lp cb logs recipients owners candidates show ?thesis by blast
qed

text \<open>
  Against C8 as stated: with deposits by \<open>holderB\<close> (0x2222...) and then \<open>holderA\<close>
  (0x1111...) the genesis round \<open>roundLate\<close> distributes among \<open>holderB, holderA\<close>, which is
  not in the order of the addresses; and a zero-address recipient of the previous blob
  stays in the list.
\<close>

theorem candidate_list_counterexample:
  "getWrapperUsers roundLate 0 17 = Inr [holderB, holderA]
   \<and> collectUsers None [holderB, holderA] = [holderB, holderA]
   \<and> \<not> addressOrdered [holderB, holderA]
   \<and> collectUsers (Some blobZero) [] = [ZeroAddress]
   \<and> lastProcessedBlock_call roundLate = Some 0
   \<and> getBlockNumber roundLate = Some 17
   \<and> generateDistribution roundLate =
       uploadRound roundLate (distributeAmong roundLate None None 17 [holderB, holderA])"
  by (simp add: generateDistribution_def getPreviousDistributionInfo_def loadPrevious_def
      roundFrom_def getWrapperUsers_def getLogs_def matchLog_def collectUsers_def set_add_def
      string_defs roundLate_def round1_def depositAt_def addressOrdered_def addressKey_def
      blobZero_def blob1_def address_defs Let_def)

section \<open>The order of the rows\<close>

lemma compareClaims_le: "compareClaims key a b \<le> 0 \<longleftrightarrow> claimKey key a \<le> claimKey key b"
  by (auto simp: compareClaims_def localeCompare_def claimKey_def Let_def)

lemma insertSorted_insort:
  "insertSorted (compareClaims key) x xs = insort_key (claimKey key) x xs"
  by (induction xs) (simp_all add: compareClaims_le)

lemma array_sort_sort_key: "array_sort (compareClaims key) xs = sort_key (claimKey key) xs"
proof -
  have "insertSorted (compareClaims key) = insort_key (claimKey key)"
    by (simp add: fun_eq_iff insertSorted_insort)
  then show ?thesis by (simp add: array_sort_def sort_key_def)
qed

lemma sorted_array_sort: "sorted (map (claimKey key) (array_sort (compareClaims key) xs))"
  by (simp add: array_sort_sort_key)

lemma compareRows_le: "compareRows key v w \<le> 0 \<longleftrightarrow> rowKey key v \<le> rowKey key w"
  by (auto simp: compareRows_def localeCompare_def rowKey_def)

lemma of_StandardMerkleTree:
  "StandardMerkleTree_of lib vs = Inr t \<Longrightarrow> map snd (mt_values t) = vs"
  by (auto simp: StandardMerkleTree_of_def split: if_splits)

lemma generateMerkleTree_values:
  "generateMerkleTree lib cs = Inr t \<Longrightarrow>
   map snd (mt_values t) = map (\<lambda>c. (recipient c, token c, toString (amount c))) cs"
  by (auto simp: generateMerkleTree_def split: if_splits dest: of_StandardMerkleTree)

lemma distributeAmong_values:
  assumes "distributeAmong d pi pd cb users = Inr (dist, root)"
  shows "\<exists>cs. map snd (values_d dist) =
            map (\<lambda>c. (recipient c, token c, toString (amount c)))
              (array_sort (compareClaims (collator d)) cs)"
proof -
  from assms obtain cs t where
    t: "generateMerkleTree (merkle d) (array_sort (compareClaims (collator d)) cs) = Inr t"
    and v: "values_d dist = mt_values t"
    by (auto simp: distributeAmong_def bindE_Inr_iff split: prod.splits)
  from generateMerkleTree_values [OF t] v show ?thesis by auto
qed

lemma roundFrom_values:
  assumes "roundFrom d pi pd = Inr (dist, root)"
  shows "\<exists>cs. map snd (values_d dist) =
            map (\<lambda>c. (recipient c, token c, toString (amount c)))
              (array_sort (compareClaims (collator d)) cs)"
proof -
  from assms obtain cb users where "distributeAmong d pi pd cb users = Inr (dist, root)"
    by (auto simp: roundFrom_def bindE_Inr_iff Let_def)
  then show ?thesis by (rule distributeAmong_values)
qed

lemma generateDistribution_round:
  assumes "fst (generateDistribution d) = Inr g"
  shows "\<exists>pi pd root. roundFrom d pi pd = Inr (distribution g, root)"
proof -
  from assms obtain dist root where
    r: "bindE (loadPrevious d (getPreviousDistributionInfo d))
          (roundFrom d (getPreviousDistributionInfo d)) = Inr (dist, root)"
    and g: "distribution g = dist"
    by (auto simp: generateDistribution_def uploadRound_def Let_def
        split: sum.splits prod.splits option.splits)
  from r obtain pd where "roundFrom d (getPreviousDistributionInfo d) pd = Inr (dist, root)"
    by (auto simp: bindE_Inr_iff)
  with g show ?thesis by blast
qed

lemma rows_sorted_by_key:
  assumes "fst (generateDistribution d) = Inr g"
  shows "sorted (map (rowKey (collator d)) (values_d (distribution g)))"
proof -
  from generateDistribution_round [OF assms] obtain pi pd root where
    "roundFrom d pi pd = Inr (distribution g, root)" by blast
  from roundFrom_values [OF this] obtain cs where
    cs: "map snd (values_d (distribution g)) =
            map (\<lambda>c. (recipient c, token c, toString (amount c)))
              (array_sort (compareClaims (collator d)) cs)"
    by blast
  have "map (rowKey (collator d)) (values_d (distribution g))
          = map (\<lambda>l. (collator d (fst l), collator d (fst (snd l))))
              (map snd (values_d (distribution g)))"
    by (simp add: rowKey_def)
  also have "\<dots> = map (claimKey (collator d)) (array_sort (compareClaims (collator d)) cs)"
    by (simp add: cs claimKey_def)
  finally show ?thesis by (simp add: sorted_array_sort)
qed

lemma addressKey_eq: "addressKey a = addressKey b \<Longrightarrow> toLowerCase a = toLowerCase b"
proof -
  assume "addressKey a = addressKey b"
  then have "map (of_char :: char \<Rightarrow> nat) (toLowerCase a) = map of_char (toLowerCase b)"
    by (simp add: addressKey_def)
  moreover have "inj (of_char :: char \<Rightarrow> nat)" by (simp add: inj_on_def)
  ultimately show ?thesis by (simp add: inj_map_eq_map)
qed

lemma rowKey_lowerPair:
  assumes le: "rowKey key v \<le> rowKey key w"
    and recipients: "key (fst (snd v)) \<le> key (fst (snd w))
                       \<Longrightarrow> addressKey (fst (snd v)) \<le> addressKey (fst (snd w))"
    and tokens: "key (fst (snd (snd v))) \<le> key (fst (snd (snd w)))
                   \<Longrightarrow> addressKey (fst (snd (snd v))) \<le> addressKey (fst (snd (snd w)))"
    and same: "toLowerCase (fst (snd v)) \<noteq> toLowerCase (fst (snd w)) \<or> fst (snd v) = fst (snd w)"
  shows "lowerPair v \<le> lowerPair w"
proof -
  let ?rv = "fst (snd v)" and ?rw = "fst (snd w)"
  let ?tv = "fst (snd (snd v))" and ?tw = "fst (snd (snd w))"
  from le have k: "key ?rv < key ?rw \<or> (key ?rv \<le> key ?rw \<and> key ?tv \<le> key ?tw)"
    by (simp add: rowKey_def less_eq_prod_def)
  then have "key ?rv \<le> key ?rw" by auto
  then have r: "addressKey ?rv \<le> addressKey ?rw" by (rule recipients)
  show ?thesis
  proof (cases "addressKey ?rv = addressKey ?rw")
    case False
    with r have "addressKey ?rv < addressKey ?rw" by simp
    then show ?thesis by (simp add: lowerPair_def less_eq_prod_def)
  next
    case True
    from addressKey_eq [OF True] same have "?rv = ?rw" by simp
    with k have "key ?tv \<le> key ?tw" by auto
    then have "addressKey ?tv \<le> addressKey ?tw" by (rule tokens)
    with True show ?thesis by (simp add: lowerPair_def less_eq_prod_def)
  qed
qed

lemma rootCollation_lowerCase:
  "rootCollation a \<le> rootCollation b \<Longrightarrow> addressKey a \<le> addressKey b"
  by (auto simp: rootCollation_def addressKey_def toLowerCase_def comp_def)

lemma rootCollation_collatesAsLowerCase: "collatesAsLowerCase rootCollation vs"
  by (simp add: collatesAsLowerCase_def list_all_iff rootCollation_lowerCase)

text \<open>
  C4, as the code has it. In every blob that \<open>generateDistribution\<close> produces, \<open>values\<close> is
  sorted by the comparator of the source: recipient by \<open>localeCompare\<close>, then token by
  \<open>localeCompare\<close>, on the strings as they are written and in the collation of the
  process's default locale. When that collation orders the address strings of the rows
  as their lower-case text does, and no two rows hold recipients that differ only in the
  case of their letters, this is the lexicographic order of the pairs (recipient, token)
  in lower case.
\<close>

theorem values_sorted_by_collation:
  assumes "fst (generateDistribution d) = Inr g"
  shows "sorted_wrt (\<lambda>v w. compareRows (collator d) v w \<le> 0) (values_d (distribution g))
    \<and> (collatesAsLowerCase (collator d) (values_d (distribution g))
         \<and> caseConsistent (values_d (distribution g))
         \<longrightarrow> sorted (map lowerPair (values_d (distribution g))))"
proof -
  let ?vs = "values_d (distribution g)"
  from rows_sorted_by_key [OF assms]
  have s: "sorted_wrt (\<lambda>v w. rowKey (collator d) v \<le> rowKey (collator d) w) ?vs"
    by (simp add: sorted_map)
  then have a: "sorted_wrt (\<lambda>v w. compareRows (collator d) v w \<le> 0) ?vs"
    by (simp add: compareRows_le)
  have b: "sorted (map lowerPair ?vs)"
    if l: "collatesAsLowerCase (collator d) ?vs" and c: "caseConsistent ?vs"
  proof -
    have mono: "addressKey x \<le> addressKey y"
      if "x \<in> set (rowStrings ?vs)" "y \<in> set (rowStrings ?vs)" "collator d x \<le> collator d y"
      for x y
      using l that by (auto simp: collatesAsLowerCase_def list_all_iff)
    have "sorted_wrt (\<lambda>v w. lowerPair v \<le> lowerPair w) ?vs"
    proof (rule sorted_wrt_mono_rel [OF _ s])
      fix v w
      assume v: "v \<in> set ?vs" and w: "w \<in> set ?vs"
        and le: "rowKey (collator d) v \<le> rowKey (collator d) w"
      from c v w have same: "toLowerCase (fst (snd v)) \<noteq> toLowerCase (fst (snd w))
                     \<or> fst (snd v) = fst (snd w)"
        by (auto simp: caseConsistent_def list_all_iff)
      from v w have members: "fst (snd v) \<in> set (rowStrings ?vs)"
        "fst (snd w) \<in> set (rowStrings ?vs)"
        "fst (snd (snd v)) \<in> set (rowStrings ?vs)"
        "fst (snd (snd w)) \<in> set (rowStrings ?vs)"
        by (auto simp: rowStrings_def)
      from le mono [OF members(1,2)] mono [OF members(3,4)] same
      show "lowerPair v \<le> lowerPair w" by (rule rowKey_lowerPair)
    qed
    then show ?thesis by (simp add: sorted_map)
  qed
  from a b show ?thesis by blast
qed

lemma roundCase_generates:
  "generateDistribution roundCase =
     (Inr \<lparr>distribution = blobCase2, merkleRoot = holderLower @ rewardToken @ holderLower @ otherToken
                          @ holderMixed @ rewardToken @ holderMixed @ otherToken,
           cid = ''QmCase2''\<rparr>, [blobCase2])"
  by (simp add: method_defs string_defs roundCase_def blobCase_def blobCase2_def demoLib_def
      depositAt_def address_defs)

lemma roundDanish_generates:
  "generateDistribution roundDanish =
     (Inr \<lparr>distribution = blobDanish, merkleRoot = holderBee @ rewardToken @ holderDane @ rewardToken,
           cid = ''QmDanish''\<rparr>, [blobDanish])"
  by (simp add: method_defs string_defs danishCollation_def roundDanish_def blobDanePrev_def
      blobDanish_def demoLib_def holderDane_def holderBee_def address_defs)

theorem values_sorted_by_collation_witness:
  "fst (generateDistribution round1) =
      Inr \<lparr>distribution = blob1, merkleRoot = holderA @ rewardToken @ holderB @ rewardToken, cid = ''QmRound1''\<rparr>
   \<and> collator round1 = rootCollation
   \<and> collatesAsLowerCase rootCollation (values_d blob1)
   \<and> caseConsistent (values_d blob1)
   \<and> sorted_wrt (\<lambda>v w. compareRows rootCollation v w \<le> 0) (values_d blob1)
   \<and> sorted (map lowerPair (values_d blob1))
   \<and> fst (generateDistribution roundDanish) =
      Inr \<lparr>distribution = blobDanish, merkleRoot = holderBee @ rewardToken @ holderDane @ rewardToken,
           cid = ''QmDanish''\<rparr>
   \<and> collator roundDanish = danishCollation
   \<and> sorted_wrt (\<lambda>v w. compareRows danishCollation v w \<le> 0) (values_d blobDanish)"
proof -
  have g: "fst (generateDistribution round1) =
      Inr \<lparr>distribution = blob1, merkleRoot = holderA @ rewardToken @ holderB @ rewardToken, cid = ''QmRound1''\<rparr>"
    by (simp add: round1_generates)
  have k: "collator round1 = rootCollation" by (simp add: round1_def)
  have l: "collatesAsLowerCase rootCollation (values_d blob1)"
    by (rule rootCollation_collatesAsLowerCase)
  have c: "caseConsistent (values_d blob1)"
    by (simp add: caseConsistent_def blob1_def string_defs address_defs)
  have g': "fst (generateDistribution roundDanish) =
      Inr \<lparr>distribution = blobDanish, merkleRoot = holderBee @ rewardToken @ holderDane @ rewardToken,
           cid = ''QmDanish''\<rparr>"
    by (simp add: roundDanish_generates)
  have k': "collator roundDanish = danishCollation" by (simp add: roundDanish_def)
  from values_sorted_by_collation [OF g] k l c
  have root: "sorted_wrt (\<lambda>v w. compareRows rootCollation v w \<le> 0) (values_d blob1)"
    "sorted (map lowerPair (values_d blob1))" by simp_all
  from values_sorted_by_collation [OF g'] k'
  have danish: "sorted_wrt (\<lambda>v w. compareRows danishCollation v w \<le> 0) (values_d blobDanish)"
    by simp
  from g k l c root g' k' danish show ?thesis by blast
qed

text \<open>
  Against C4 as stated. In the root collation: the previous blob writes an account in
  lower case, a later deposit writes it in its checksum form; both spellings get rows for
  both tokens, \<open>localeCompare\<close> puts the rows of the lower-case spelling first, and in
  lower case the pairs come out as (holder, 0x5fc8...), (holder, 0xdc64...),
  (holder, 0x5fc8...), (holder, 0xdc64...). In the Danish collation: the previous blob
  pays two recipients written in lower case, 0xaa39... and 0xb5e2..., and in the new blob
  \<open>localeCompare\<close> puts 0xb5e2... first.
\<close>

theorem values_lowercase_order_counterexample:
  "collator roundCase = rootCollation
   \<and> fst (generateDistribution roundCase) =
      Inr \<lparr>distribution = blobCase2, merkleRoot = holderLower @ rewardToken @ holderLower @ otherToken
                          @ holderMixed @ rewardToken @ holderMixed @ otherToken,
           cid = ''QmCase2''\<rparr>
   \<and> \<not> sorted (map lowerPair (values_d blobCase2))
   \<and> collator roundDanish = danishCollation
   \<and> ipfs_cat roundDanish ''QmDanePrev'' = Some blobDanePrev
   \<and> fst (generateDistribution roundDanish) =
      Inr \<lparr>distribution = blobDanish, merkleRoot = holderBee @ rewardToken @ holderDane @ rewardToken,
           cid = ''QmDanish''\<rparr>
   \<and> caseConsistent (values_d blobDanish)
   \<and> \<not> sorted (map lowerPair (values_d blobDanish))"
  by (simp add: roundCase_generates roundDanish_generates)
     (simp add: roundCase_def roundDanish_def blobCase2_def blobDanish_def caseConsistent_def
        lowerPair_def addressKey_def string_defs holderDane_def holderBee_def address_defs)

section \<open>Validation of the previous blob\<close>

lemma bindE_Inl_iff:
  "bindE m f = Inl e \<longleftrightarrow> m = Inl e \<or> (\<exists>x. m = Inr x \<and> f x = Inl e)"
  by (cases m) simp_all

lemma rpc_avoids: "rpc x \<noteq> Inl ValidationFailed"
  by (cases x) auto

lemma BigInt_avoids: "BigInt a \<noteq> Inl ValidationFailed"
  by (cases a) auto

lemma getWrapperUsers_avoids: "getWrapperUsers d fromB toB \<noteq> Inl ValidationFailed"
  by (simp add: getWrapperUsers_def getLogs_def bindE_Inl_iff rpc_avoids)

lemma buildPreviousClaims_avoids: "buildPreviousClaims vs m \<noteq> Inl ValidationFailed"
proof (induction vs arbitrary: m)
  case Nil
  then show ?case by simp
next
  case (Cons v vs)
  obtain i r t a where v: "v = (i, (r, t, a))" by (cases v) auto
  show ?case
    unfolding v by (simp add: bindE_Inl_iff BigInt_avoids Cons.IH)
qed

lemma calculateDistributableAmount_avoids:
  "calculateDistributableAmount d tok pd \<noteq> Inl ValidationFailed"
  by (cases pd)
     (auto simp: calculateDistributableAmount_def getDistributorTokenBalance_def
        getDistributorBalanceAtBlock_def getClaimedAmountSinceLastReport_def getLogs_def
        bindE_Inl_iff rpc_avoids Let_def split: option.splits)

lemma processUsers_avoids:
  "processUsers d pc tok actual supply users acc \<noteq> Inl ValidationFailed"
proof (induction users arbitrary: acc)
  case Nil
  then show ?case by simp
next
  case (Cons u us)
  obtain cs t0 where acc: "acc = (cs, t0)" by (cases acc)
  show ?case
    unfolding acc
    by (auto simp: bindE_Inl_iff rpc_avoids bigint_div_def Let_def Cons.IH split: if_splits)
qed

lemma feeBasisPoints_avoids: "feeBasisPoints fee \<noteq> Inl ValidationFailed"
  by (cases "Math_floor (js_times fee (Finite 100 0))") (simp_all add: feeBasisPoints_def)

lemma processToken_avoids:
  "processToken d pd pc users supply tok acc \<noteq> Inl ValidationFailed"
proof -
  obtain cs totals where acc: "acc = (cs, totals)" by (cases acc)
  have prevTot: "previousTotal pd tok \<noteq> Inl ValidationFailed"
    by (simp add: previousTotal_def BigInt_avoids split: option.splits)
  show ?thesis
    unfolding acc processToken_def
    by (auto simp: bindE_Inl_iff prevTot calculateDistributableAmount_avoids
        feeBasisPoints_avoids processUsers_avoids Let_def split: if_splits prod.splits)
qed

lemma processTokens_avoids:
  "processTokens d pd pc users supply toks acc \<noteq> Inl ValidationFailed"
  by (induction toks arbitrary: acc) (simp_all add: bindE_Inl_iff processToken_avoids)

lemma generateMerkleTree_avoids: "generateMerkleTree lib cs \<noteq> Inl ValidationFailed"
  by (simp add: generateMerkleTree_def StandardMerkleTree_of_def)

lemma distributeAmong_avoids: "distributeAmong d pi pd cb users \<noteq> Inl ValidationFailed"
  by (auto simp: distributeAmong_def bindE_Inl_iff rpc_avoids buildPreviousClaims_avoids
      processTokens_avoids generateMerkleTree_avoids split: prod.splits)

lemma roundFrom_avoids: "roundFrom d pi pd \<noteq> Inl ValidationFailed"
  by (simp add: roundFrom_def Let_def bindE_Inl_iff rpc_avoids getWrapperUsers_avoids
      distributeAmong_avoids)

lemma uploadRound_validation:
  "fst (uploadRound d r) = Inl ValidationFailed \<longleftrightarrow> r = Inl ValidationFailed"
  by (auto simp: uploadRound_def split: sum.splits option.splits)

lemma validate_rebuilt:
  "validatePreviousDistribution d blob r \<longleftrightarrow> rebuiltRoot d blob = Some r"
  by (simp add: validatePreviousDistribution_def rebuiltRoot_def split: sum.splits)

text \<open>
  C6, as the code has it. When the chain answers a non-empty cid and a root other than
  the zero hash, \<open>generateDistribution\<close> downloads the blob of that cid; a failed download
  ends the round; otherwise it rebuilds the root from the blob's values and ends the
  round with the validation error exactly when the rebuild fails or its root is not the
  root on chain, handing nothing to IPFS; when the roots agree the round goes on from
  that blob.
\<close>

theorem previous_root_validation:
  assumes "cid_call d = Some c" and "root_call d = Some r" and "c \<noteq> []" and "r \<noteq> ZeroHash"
  shows "(ipfs_cat d c = None \<longrightarrow> generateDistribution d = (Inl IpfsFailure, []))
    \<and> (ipfs_cat d c = Some blob \<longrightarrow>
         (fst (generateDistribution d) = Inl ValidationFailed \<longleftrightarrow> rebuiltRoot d blob \<noteq> Some r)
       \<and> (rebuiltRoot d blob \<noteq> Some r \<longrightarrow> generateDistribution d = (Inl ValidationFailed, []))
       \<and> (rebuiltRoot d blob = Some r \<longrightarrow>
            generateDistribution d = uploadRound d (roundFrom d (Some (c, r)) (Some blob))))"
proof -
  from assms have info: "getPreviousDistributionInfo d = Some (c, r)"
    by (simp add: getPreviousDistributionInfo_def)
  have down: "generateDistribution d = (Inl IpfsFailure, [])" if "ipfs_cat d c = None"
    using that info by (simp add: generateDistribution_def loadPrevious_def uploadRound_def)
  have bad: "generateDistribution d = (Inl ValidationFailed, [])"
    if "ipfs_cat d c = Some blob" "rebuiltRoot d blob \<noteq> Some r"
    using that info
    by (simp add: generateDistribution_def loadPrevious_def uploadRound_def validate_rebuilt)
  have good: "generateDistribution d = uploadRound d (roundFrom d (Some (c, r)) (Some blob))"
    if "ipfs_cat d c = Some blob" "rebuiltRoot d blob = Some r"
    using that info
    by (simp add: generateDistribution_def loadPrevious_def validate_rebuilt)
  have iff: "fst (generateDistribution d) = Inl ValidationFailed \<longleftrightarrow> rebuiltRoot d blob \<noteq> Some r"
    if b: "ipfs_cat d c = Some blob"
  proof (cases "rebuiltRoot d blob = Some r")
    case True
    from good [OF b True] roundFrom_avoids [of d "Some (c, r)" "Some blob"] True
    show ?thesis by (simp add: uploadRound_validation)
  next
    case False
    from bad [OF b False] False show ?thesis by simp
  qed
  from down bad good iff show ?thesis by blast
qed

lemma roundStale_generates:
  "generateDistribution roundStale =
     (Inr \<lparr>distribution = blob1, merkleRoot = holderA @ rewardToken @ holderB @ rewardToken,
           cid = ''QmRound1''\<rparr>, [blob1])"
  by (simp add: method_defs string_defs round_defs roundStale_def)

lemma rebuilt_blob1:
  "merkle d = demoLib \<Longrightarrow> rebuiltRoot d blob1 = Some (holderA @ rewardToken @ holderB @ rewardToken)"
  by (simp add: rebuiltRoot_def blob1_def generateMerkleTree_def StandardMerkleTree_of_def
      demoLib_def toString_def)

theorem previous_root_validation_witness:
  "cid_call roundForged = Some ''QmRound1''
   \<and> root_call roundForged = Some (holderB @ rewardToken)
   \<and> ipfs_cat roundForged ''QmRound1'' = Some blob1
   \<and> rebuiltRoot roundForged blob1 = Some (holderA @ rewardToken @ holderB @ rewardToken)
   \<and> generateDistribution roundForged = (Inl ValidationFailed, [])
   \<and> fst (generateDistribution roundForged) = Inl ValidationFailed"
proof -
  have c: "cid_call roundForged = Some ''QmRound1''"
    and r: "root_call roundForged = Some (holderB @ rewardToken)"
    and b: "ipfs_cat roundForged ''QmRound1'' = Some blob1"
    by (simp_all add: roundForged_def round2_def)
  have ne: "''QmRound1'' \<noteq> []" "(holderB @ rewardToken) \<noteq> ZeroHash"
    by (simp_all add: ZeroHash_def address_defs)
  have rb: "rebuiltRoot roundForged blob1 = Some (holderA @ rewardToken @ holderB @ rewardToken)"
    by (rule rebuilt_blob1) (simp add: roundForged_def round2_def)
  have differ: "rebuiltRoot roundForged blob1 \<noteq> Some (holderB @ rewardToken)"
    by (simp add: rb address_defs)
  from previous_root_validation [OF c r ne, of blob1] b differ
  have "generateDistribution roundForged = (Inl ValidationFailed, [])"
    and "fst (generateDistribution roundForged) = Inl ValidationFailed" by blast+
  with b rb c r show ?thesis by simp
qed

text \<open>
  Against C6 as stated: the cid on chain is not empty and the blob it names rebuilds to a
  root other than the one on chain (the zero hash), yet the round runs as a genesis round
  and uploads its blob.
\<close>

theorem zero_root_skips_validation_counterexample:
  "cid_call roundStale = Some ''QmStale''
   \<and> ''QmStale'' \<noteq> []
   \<and> root_call roundStale = Some ZeroHash
   \<and> ipfs_cat roundStale ''QmStale'' = Some blob1
   \<and> rebuiltRoot roundStale blob1 = Some (holderA @ rewardToken @ holderB @ rewardToken)
   \<and> (holderA @ rewardToken @ holderB @ rewardToken) \<noteq> ZeroHash
   \<and> generateDistribution roundStale =
       (Inr \<lparr>distribution = blob1, merkleRoot = holderA @ rewardToken @ holderB @ rewardToken,
             cid = ''QmRound1''\<rparr>, [blob1])"
proof -
  have rb: "rebuiltRoot roundStale blob1 = Some (holderA @ rewardToken @ holderB @ rewardToken)"
    by (rule rebuilt_blob1) (simp add: roundStale_def round1_def)
  have chain: "cid_call roundStale = Some ''QmStale''" "root_call roundStale = Some ZeroHash"
    "ipfs_cat roundStale ''QmStale'' = Some blob1"
    by (simp_all add: roundStale_def round1_def)
  have ne: "(holderA @ rewardToken @ holderB @ rewardToken) \<noteq> ZeroHash"
    by (simp add: ZeroHash_def address_defs)
  from rb chain ne show ?thesis by (simp add: roundStale_generates)
qed

section \<open>Failing reads\<close>



















section \<open>Rows that receive nothing\<close>

text \<open>
  C1 at a failing input. The previous blob holds the row (\<open>holderA\<close>, \<open>rewardToken\<close>,
  225000000000000000); in the next round \<open>holderA\<close> holds no wrapper shares, receives no
  new allocation, and the blob of that round has no row for \<open>holderA\<close> at all.
\<close>

theorem carried_row_dropped:
  "ipfs_cat round2 ''QmRound1'' = Some blob1
   \<and> list_ex (\<lambda>v. snd v = (holderA, rewardToken, NumStr 225000000000000000)) (values_d blob1)
   \<and> wrapper_balanceOf round2 holderA = Some 0
   \<and> fst (generateDistribution round2) =
       Inr \<lparr>distribution = blob2, merkleRoot = holderB @ rewardToken, cid = ''QmRound2''\<rparr>
   \<and> map snd (values_d blob2) = [(holderB, rewardToken, NumStr 675000000000000090)]
   \<and> \<not> list_ex (\<lambda>v. fst (snd v) = holderA) (values_d blob2)"
  by (simp add: round2_generates) (simp add: round2_def blob1_def blob2_def address_defs)

text \<open>
  C5 at a failing input. In the same round \<open>totalDistributed\<close> of the token is the
  previous total plus the new allocations, 900000000000000090, while the rows of the
  token in \<open>values\<close> sum to 675000000000000090.
\<close>

theorem total_exceeds_rows:
  "fst (generateDistribution round2) =
       Inr \<lparr>distribution = blob2, merkleRoot = holderB @ rewardToken, cid = ''QmRound2''\<rparr>
   \<and> map_of (totalDistributed blob2) rewardToken = Some (NumStr 900000000000000090)
   \<and> tokenSum rewardToken (values_d blob2) = 675000000000000090"
  by (simp add: round2_generates) (simp add: blob2_def tokenSum_def rowAmount_def)

end
